theory Spec2Isabelle
  imports Main "HOL-Library.Sublist"
begin

section \<open>DailyStatus: a shallow embedding of \<^verbatim>\<open>main.py\<close>\<close>

text \<open>
  The program reads a day's commits from a Git repository, builds a prompt from their
  diffs, sends it to a text-generation endpoint and keeps its settings in a JSON file.
  Its functions are translated one by one.  What they call from outside the repository
  (GitPython, \<^verbatim>\<open>requests\<close>, \<^verbatim>\<open>json\<close>, \<^verbatim>\<open>datetime\<close>, the file system) is either an
  argument of the translated function or a definition that follows the library's
  documented behaviour; an exception is a value \<open>Inl e\<close> of the result.
\<close>

subsection \<open>Strings and exceptions\<close>

text \<open>
  A Python \<^verbatim>\<open>str\<close> is a sequence of Unicode code points, so a string is a list of
  numbers; \<open>str\<close> reads an ASCII literal.  The en dash of the length directives is the
  code point 8211.
\<close>

type_synonym pystr = "nat list"

definition str :: "string \<Rightarrow> pystr" where
  "str s = map of_char s"

definition en_dash :: nat where
  "en_dash = 8211"

datatype exn =
    InvalidGitRepositoryError
  | NoSuchPathError pystr
  | GitCommandError
  | TypeError
  | ValueError
  | OverflowError
  | KeyError pystr
  | IndexError
  | AttributeError
  | RuntimeError pystr
  | RequestException
  | HTTPError int
  | JSONDecodeError
  | OSError

subsection \<open>Dates and times\<close>

text \<open>
  \<^verbatim>\<open>datetime.date\<close>, \<^verbatim>\<open>datetime.time\<close> and a naive \<^verbatim>\<open>datetime.datetime\<close>.  Python orders
  naive datetimes as the tuples (year, month, day, hour, minute, second, microsecond);
  \<open>lex_le\<close> is that tuple comparison.
\<close>

record date =
  year :: int
  month :: int
  day :: int

record time =
  hour :: int
  minute :: int
  second :: int
  microsecond :: int

record datetime =
  dt_date :: date
  dt_time :: time

definition time_min :: time where
  "time_min = \<lparr>hour = 0, minute = 0, second = 0, microsecond = 0\<rparr>"

definition time_max :: time where
  "time_max = \<lparr>hour = 23, minute = 59, second = 59, microsecond = 999999\<rparr>"

definition combine :: "date \<Rightarrow> time \<Rightarrow> datetime" where
  "combine d t = \<lparr>dt_date = d, dt_time = t\<rparr>"

fun lex_le :: "int list \<Rightarrow> int list \<Rightarrow> bool" where
  "lex_le [] ys = True"
| "lex_le (x # xs) [] = False"
| "lex_le (x # xs) (y # ys) = (x < y \<or> (x = y \<and> lex_le xs ys))"

definition datetime_key :: "datetime \<Rightarrow> int list" where
  "datetime_key a =
     [year (dt_date a), month (dt_date a), day (dt_date a),
      hour (dt_time a), minute (dt_time a), second (dt_time a), microsecond (dt_time a)]"

definition datetime_le :: "datetime \<Rightarrow> datetime \<Rightarrow> bool" where
  "datetime_le a b = lex_le (datetime_key a) (datetime_key b)"

text \<open>
  \<^verbatim>\<open>datetime.fromtimestamp(t)\<close> for an integer \<^verbatim>\<open>t\<close>: the platform's \<^verbatim>\<open>localtime\<close> gives
  the broken-down local time (a \<^verbatim>\<open>time.struct_time\<close>) or refuses the timestamp, which
  raises; the seconds are clamped to 59, the microseconds are 0, and the \<^verbatim>\<open>datetime\<close>
  constructor raises \<^verbatim>\<open>ValueError\<close> unless the year is from 1 to 9999 and month, day,
  hour, minute and second are those of a calendar date and a time of day.  The time
  zone is the platform's, so \<open>localtime\<close> is an argument.
\<close>

record struct_tm =
  tm_year :: int
  tm_mon :: int
  tm_mday :: int
  tm_hour :: int
  tm_min :: int
  tm_sec :: int

definition is_leap :: "int \<Rightarrow> bool" where
  "is_leap y = (y mod 4 = 0 \<and> (y mod 100 \<noteq> 0 \<or> y mod 400 = 0))"

definition days_in_month :: "int \<Rightarrow> int \<Rightarrow> int" where
  "days_in_month y m =
     (if m = 2 then (if is_leap y then 29 else 28)
      else if m = 4 \<or> m = 6 \<or> m = 9 \<or> m = 11 then 30
      else 31)"

definition check_date_args :: "date \<Rightarrow> bool" where
  "check_date_args d =
     (1 \<le> year d \<and> year d \<le> 9999 \<and> 1 \<le> month d \<and> month d \<le> 12 \<and>
      1 \<le> day d \<and> day d \<le> days_in_month (year d) (month d))"

definition check_time_args :: "time \<Rightarrow> bool" where
  "check_time_args t =
     (0 \<le> hour t \<and> hour t \<le> 23 \<and> 0 \<le> minute t \<and> minute t \<le> 59 \<and>
      0 \<le> second t \<and> second t \<le> 59 \<and> 0 \<le> microsecond t \<and> microsecond t \<le> 999999)"

definition fromtimestamp :: "(int \<Rightarrow> struct_tm option) \<Rightarrow> int \<Rightarrow> exn + datetime" where
  "fromtimestamp localtime t =
     (case localtime t of
        None \<Rightarrow> Inl OverflowError
      | Some tm \<Rightarrow>
          (let d = \<lparr>year = tm_year tm, month = tm_mon tm, day = tm_mday tm\<rparr>;
               tod = \<lparr>hour = tm_hour tm, minute = tm_min tm,
                      second = min (tm_sec tm) 59, microsecond = 0\<rparr>
           in if check_date_args d \<and> check_time_args tod
              then Inr \<lparr>dt_date = d, dt_time = tod\<rparr>
              else Inl ValueError))"

subsection \<open>Git helpers\<close>

text \<open>
  What the program reads of a GitPython \<^verbatim>\<open>Commit\<close> and \<^verbatim>\<open>Repo\<close>.  \<open>parents\<close> holds the
  parents' \<^verbatim>\<open>hexsha\<close>, the only attribute read of them.  \<open>active_branch\<close> is \<open>None\<close> when
  \<^verbatim>\<open>HEAD\<close> is detached (GitPython raises \<^verbatim>\<open>TypeError\<close>); \<open>iter_commits\<close> gives the commits
  reachable from a revision in traversal order, or the error of a revision that does not
  resolve; \<open>git_diff\<close> and \<open>git_show\<close> are the outputs of \<^verbatim>\<open>git diff a b\<close> and \<^verbatim>\<open>git show a\<close>.
  Opening a path (\<^verbatim>\<open>Repo(path)\<close>) is an argument \<open>Repo\<close> of the functions below: GitPython
  raises \<^verbatim>\<open>NoSuchPathError\<close> for a path that does not exist and
  \<^verbatim>\<open>InvalidGitRepositoryError\<close> for an existing path that holds no repository.
\<close>

record commit =
  hexsha :: pystr
  committed_date :: int
  parents :: "pystr list"

record repo =
  heads :: "pystr list"
  active_branch :: "pystr option"
  iter_commits :: "pystr \<Rightarrow> exn + commit list"
  git_diff :: "pystr \<Rightarrow> pystr \<Rightarrow> exn + pystr"
  git_show :: "pystr \<Rightarrow> exn + pystr"

definition list_branches :: "(pystr \<Rightarrow> exn + repo) \<Rightarrow> pystr \<Rightarrow> exn + pystr list" where
  "list_branches Repo repo_path =
     (case Repo repo_path of
        Inl e \<Rightarrow> (if e = InvalidGitRepositoryError then Inr [] else Inl e)
      | Inr r \<Rightarrow> Inr (heads r))"

text \<open>The test \<^verbatim>\<open>since <= cd <= until\<close> of the commit loop.\<close>

definition in_day :: "date \<Rightarrow> datetime \<Rightarrow> bool" where
  "in_day d cd =
     (let since = combine d time_min; until = combine d time_max
      in datetime_le since cd \<and> datetime_le cd until)"

text \<open>The patch of a commit: the diff against its first parent, or \<^verbatim>\<open>git show\<close>.\<close>

definition commit_patch :: "repo \<Rightarrow> commit \<Rightarrow> exn + pystr" where
  "commit_patch r c =
     (case parents c of
        p # ps \<Rightarrow> git_diff r p (hexsha c)
      | [] \<Rightarrow> git_show r (hexsha c))"

text \<open>The f-string \<^verbatim>\<open>f"Commit {commit.hexsha[:7]} on {br}:\n{patch}"\<close>.\<close>

definition diff_entry :: "commit \<Rightarrow> pystr \<Rightarrow> pystr \<Rightarrow> pystr" where
  "diff_entry c br patch =
     str ''Commit '' @ take 7 (hexsha c) @ str '' on '' @ br @ str '':\<newline>'' @ patch"

text \<open>The inner loop over the commits of one branch; \<open>diffs\<close> is the list appended to.\<close>

fun commits_loop ::
  "(int \<Rightarrow> struct_tm option) \<Rightarrow> repo \<Rightarrow> date \<Rightarrow> pystr \<Rightarrow> commit list \<Rightarrow> pystr list
     \<Rightarrow> exn + pystr list" where
  "commits_loop localtime r d br [] diffs = Inr diffs"
| "commits_loop localtime r d br (c # cs) diffs =
     (case fromtimestamp localtime (committed_date c) of
        Inl e \<Rightarrow> Inl e
      | Inr cd \<Rightarrow>
          if \<not> in_day d cd then commits_loop localtime r d br cs diffs
          else (case commit_patch r c of
                  Inl e \<Rightarrow> Inl e
                | Inr patch \<Rightarrow>
                    commits_loop localtime r d br cs (diffs @ [diff_entry c br patch])))"

text \<open>The outer loop over the branches.\<close>

fun branches_loop ::
  "(int \<Rightarrow> struct_tm option) \<Rightarrow> repo \<Rightarrow> date \<Rightarrow> pystr list \<Rightarrow> pystr list
     \<Rightarrow> exn + pystr list" where
  "branches_loop localtime r d [] diffs = Inr diffs"
| "branches_loop localtime r d (br # brs) diffs =
     (case iter_commits r br of
        Inl e \<Rightarrow> Inl e
      | Inr cs \<Rightarrow>
          (case commits_loop localtime r d br cs diffs of
             Inl e \<Rightarrow> Inl e
           | Inr diffs' \<Rightarrow> branches_loop localtime r d brs diffs'))"

text \<open>\<^verbatim>\<open>branches or [repo.active_branch.name]\<close>.\<close>

definition branches_or_active :: "repo \<Rightarrow> pystr list \<Rightarrow> exn + pystr list" where
  "branches_or_active r branches =
     (if branches \<noteq> [] then Inr branches
      else (case active_branch r of None \<Rightarrow> Inl TypeError | Some b \<Rightarrow> Inr [b]))"

definition gather_diffs ::
  "(pystr \<Rightarrow> exn + repo) \<Rightarrow> (int \<Rightarrow> struct_tm option) \<Rightarrow> pystr \<Rightarrow> pystr list \<Rightarrow> date
     \<Rightarrow> exn + pystr list" where
  "gather_diffs Repo localtime path branches d =
     (case Repo path of
        Inl e \<Rightarrow>
          (if e = InvalidGitRepositoryError
           then Inl (RuntimeError (str ''Not a Git repository.''))
           else Inl e)
      | Inr r \<Rightarrow>
          (case branches_or_active r branches of
             Inl e \<Rightarrow> Inl e
           | Inr brs \<Rightarrow> branches_loop localtime r d brs []))"

subsection \<open>String operations of Python\<close>

text \<open>
  \<^verbatim>\<open>sep.join(xs)\<close>, and \<^verbatim>\<open>s.split(sep)\<close>: the string is scanned from the left, every
  occurrence of \<open>sep\<close> found ends a part and the scan goes on behind it; an empty \<open>sep\<close>
  raises \<^verbatim>\<open>ValueError\<close>.  \<open>cur\<close> is the part being read.
\<close>

fun py_join :: "pystr \<Rightarrow> pystr list \<Rightarrow> pystr" where
  "py_join sep [] = []"
| "py_join sep [x] = x"
| "py_join sep (x # y # ys) = x @ sep @ py_join sep (y # ys)"

function split_scan :: "pystr \<Rightarrow> pystr \<Rightarrow> pystr \<Rightarrow> pystr list" where
  "split_scan sep cur [] = [cur]"
| "split_scan sep cur (x # xs) =
     (if sep \<noteq> [] \<and> prefix sep (x # xs)
      then cur # split_scan sep [] (drop (length sep) (x # xs))
      else split_scan sep (cur @ [x]) xs)"
  by pat_completeness auto
termination
  by (relation "measure (\<lambda>(sep, cur, s). length s)") auto

definition py_split :: "pystr \<Rightarrow> pystr \<Rightarrow> exn + pystr list" where
  "py_split s sep = (if sep = [] then Inl ValueError else Inr (split_scan sep [] s))"

text \<open>Decimal digits, and a number zero-filled to a width, as \<^verbatim>\<open>strftime\<close> prints them.\<close>

fun show_nat :: "nat \<Rightarrow> pystr" where
  "show_nat n = (if n < 10 then [48 + n] else show_nat (n div 10) @ [48 + n mod 10])"

declare show_nat.simps [simp del]

definition zero_fill :: "nat \<Rightarrow> int \<Rightarrow> pystr" where
  "zero_fill w n = replicate (w - length (show_nat (nat n))) 48 @ show_nat (nat n)"

subsection \<open>Prompt parts\<close>

text \<open>
  \<^verbatim>\<open>date.strftime\<close> for the two formats the program uses, as the C library prints them:
  \<^verbatim>\<open>%d\<close> and \<^verbatim>\<open>%m\<close> are two digits, \<^verbatim>\<open>%Y\<close> is the year in decimal without padding (glibc;
  a year below 1000 has fewer than four digits), \<^verbatim>\<open>%B\<close> is the month's name in the C locale
  (the program sets no locale).
\<close>

definition month_names :: "pystr list" where
  "month_names =
     [str ''January'', str ''February'', str ''March'', str ''April'', str ''May'',
      str ''June'', str ''July'', str ''August'', str ''September'', str ''October'',
      str ''November'', str ''December'']"

definition month_name :: "int \<Rightarrow> pystr" where
  "month_name m = (if 1 \<le> m \<and> m \<le> 12 then month_names ! nat (m - 1) else [])"

text \<open>\<^verbatim>\<open>date.strftime("%d.%m.%Y")\<close>\<close>

definition strftime_dmY :: "date \<Rightarrow> pystr" where
  "strftime_dmY d =
     zero_fill 2 (day d) @ str ''.'' @ zero_fill 2 (month d) @ str ''.'' @
     show_nat (nat (year d))"

text \<open>\<^verbatim>\<open>date.strftime('%B %d, %Y')\<close>\<close>

definition strftime_BdY :: "date \<Rightarrow> pystr" where
  "strftime_BdY d =
     month_name (month d) @ str '' '' @ zero_fill 2 (day d) @ str '', '' @
     show_nat (nat (year d))"

text \<open>The length directives: ``Use 2-3 sentences.'' with an en dash, and so on.\<close>

definition use_sentences :: "string \<Rightarrow> string \<Rightarrow> pystr" where
  "use_sentences a b = str ''Use '' @ str a @ [en_dash] @ str b @ str '' sentences.''"

definition sentence_map :: "pystr \<Rightarrow> pystr option" where
  "sentence_map style =
     (if style = str ''short'' then Some (use_sentences ''2'' ''3'')
      else if style = str ''medium'' then Some (use_sentences ''4'' ''5'')
      else if style = str ''long'' then Some (use_sentences ''6'' ''8'')
      else None)"

definition example :: pystr where
  "example =
     str ''09.04.2025:\<newline>'' @
     str ''Added a logging system - integrated the logger into the login (auth/login/route.ts) '' @
     str ''and user creation (user/create/route.ts) endpoints, updated audit logs.\<newline>\<newline>'' @
     str ''10.04.2025:\<newline>'' @
     str ''Implemented MFA for all users - added /api/mfa endpoints (QR code, TOTP), extended login logic, '' @
     str ''created migration and userMFA schema, updated middleware.''"

text \<open>
  The header is written in two halves around the directive, as the f-string has them;
  \<^verbatim>\<open>sentence_map[style]\<close> raises \<^verbatim>\<open>KeyError\<close> for a style that is not a key.
\<close>

definition template_before :: "pystr \<Rightarrow> date \<Rightarrow> pystr \<Rightarrow> pystr" where
  "template_before project d style =
     str ''You are an assistant that writes '' @ style @
     str '' daily stand-up updates for software engineers.\<newline>'' @
     str ''Project: '' @ project @ str ''\<newline>'' @
     str ''Date: '' @ strftime_BdY d @ str ''\<newline>\<newline>'' @
     str ''Here are the detailed code diffs for today:\<newline>\<newline>''"

definition template_after :: "date \<Rightarrow> pystr" where
  "template_after d =
     str ''\<newline>\<newline>'' @
     str ''Generate a status in the exact format of the examples below:\<newline>\<newline>'' @
     example @ str ''\<newline>\<newline>'' @
     str ''Now write only the entry for '' @ strftime_dmY d @ str '':''"

definition build_template :: "pystr \<Rightarrow> date \<Rightarrow> pystr \<Rightarrow> exn + pystr" where
  "build_template project d style =
     (case sentence_map style of
        None \<Rightarrow> Inl (KeyError style)
      | Some directive \<Rightarrow>
          Inr (template_before project d style @ directive @ template_after d))"

text \<open>\<^verbatim>\<open>"\n\n".join(diffs) if diffs else "No code changes today."\<close>\<close>

definition diffs_block :: "pystr list \<Rightarrow> pystr" where
  "diffs_block diffs =
     (if diffs \<noteq> [] then py_join (str ''\<newline>\<newline>'') diffs
      else str ''No code changes today.'')"

definition build_full_prompt :: "pystr list \<Rightarrow> pystr \<Rightarrow> date \<Rightarrow> pystr \<Rightarrow> exn + pystr" where
  "build_full_prompt diffs project d style =
     (case build_template project d style of
        Inl e \<Rightarrow> Inl e
      | Inr header \<Rightarrow>
          (case sentence_map style of
             None \<Rightarrow> Inl (KeyError style)
           | Some directive \<Rightarrow>
               (case py_split header directive of
                  Inl e \<Rightarrow> Inl e
                | Inr parts \<Rightarrow>
                    (case parts of
                       p0 # p1 # rest \<Rightarrow>
                         Inr (p0 @ diffs_block diffs @ str ''\<newline>\<newline>'' @ directive @ p1)
                     | _ \<Rightarrow> Inl IndexError))))"

subsection \<open>JSON values\<close>

text \<open>
  The values \<^verbatim>\<open>json.loads\<close> and \<^verbatim>\<open>Response.json()\<close> return: \<^verbatim>\<open>None\<close>, a \<^verbatim>\<open>bool\<close>, a number,
  a \<^verbatim>\<open>str\<close>, a \<^verbatim>\<open>list\<close> or a \<^verbatim>\<open>dict\<close> with string keys, whose items are kept in their
  order.  Numbers are integers: the program reads and writes none, and a float stands
  outside the model.  The keys of an object are distinct, as those of a \<^verbatim>\<open>dict\<close> are;
  \<open>obj_get\<close> looks a key up.
\<close>

datatype json =
    JNull
  | JBool bool
  | JNum int
  | JStr pystr
  | JArr "json list"
  | JObj "(pystr \<times> json) list"

definition obj_get :: "(pystr \<times> json) list \<Rightarrow> pystr \<Rightarrow> json option" where
  "obj_get kvs k = map_of kvs k"

text \<open>Truth value of a value, as \<^verbatim>\<open>not cands\<close> tests it.\<close>

fun truthy :: "json \<Rightarrow> bool" where
  "truthy JNull = False"
| "truthy (JBool b) = b"
| "truthy (JNum n) = (n \<noteq> 0)"
| "truthy (JStr s) = (s \<noteq> [])"
| "truthy (JArr xs) = (xs \<noteq> [])"
| "truthy (JObj kvs) = (kvs \<noteq> [])"

text \<open>\<^verbatim>\<open>x.get(key, default)\<close>: only a \<^verbatim>\<open>dict\<close> has the method.\<close>

fun py_get :: "json \<Rightarrow> pystr \<Rightarrow> json \<Rightarrow> exn + json" where
  "py_get (JObj kvs) k dflt = (case obj_get kvs k of None \<Rightarrow> Inr dflt | Some v \<Rightarrow> Inr v)"
| "py_get x k dflt = Inl AttributeError"

text \<open>\<^verbatim>\<open>x[0]\<close>: the first element of a list, the first character of a string.\<close>

fun subscript_zero :: "json \<Rightarrow> exn + json" where
  "subscript_zero (JArr xs) = (case xs of [] \<Rightarrow> Inl IndexError | x # r \<Rightarrow> Inr x)"
| "subscript_zero (JStr s) = (case s of [] \<Rightarrow> Inl IndexError | c # r \<Rightarrow> Inr (JStr [c]))"
| "subscript_zero (JObj kvs) = Inl (KeyError (str ''0''))"
| "subscript_zero x = Inl TypeError"

text \<open>\<^verbatim>\<open>x[key]\<close> for a string key: only a \<^verbatim>\<open>dict\<close> takes one.\<close>

fun subscript_key :: "json \<Rightarrow> pystr \<Rightarrow> exn + json" where
  "subscript_key (JObj kvs) k = (case obj_get kvs k of None \<Rightarrow> Inl (KeyError k) | Some v \<Rightarrow> Inr v)"
| "subscript_key x k = Inl TypeError"

text \<open>
  \<^verbatim>\<open>for p in x\<close>: the elements of a list, the characters of a string, the keys of a
  \<^verbatim>\<open>dict\<close>.
\<close>

fun py_iter :: "json \<Rightarrow> exn + json list" where
  "py_iter (JArr xs) = Inr xs"
| "py_iter (JStr s) = Inr (map (\<lambda>c. JStr [c]) s)"
| "py_iter (JObj kvs) = Inr (map (\<lambda>kv. JStr (fst kv)) kvs)"
| "py_iter x = Inl TypeError"

text \<open>
  The generator \<^verbatim>\<open>p.get("text", "") for p in parts\<close> and \<^verbatim>\<open>"".join\<close> of its items: \<^verbatim>\<open>join\<close>
  first runs the generator to its end, so the first part without a \<^verbatim>\<open>get\<close> raises; then
  every item must be a string.
\<close>

fun get_texts :: "json list \<Rightarrow> exn + json list" where
  "get_texts [] = Inr []"
| "get_texts (p # ps) =
     (case py_get p (str ''text'') (JStr []) of
        Inl e \<Rightarrow> Inl e
      | Inr t \<Rightarrow> (case get_texts ps of Inl e \<Rightarrow> Inl e | Inr ts \<Rightarrow> Inr (t # ts)))"

fun join_empty :: "json list \<Rightarrow> exn + pystr" where
  "join_empty [] = Inr []"
| "join_empty (JStr s # ts) = (case join_empty ts of Inl e \<Rightarrow> Inl e | Inr r \<Rightarrow> Inr (s @ r))"
| "join_empty (x # ts) = Inl TypeError"

text \<open>
  \<^verbatim>\<open>s.strip()\<close> removes the leading and the trailing whitespace; \<open>py_isspace\<close> lists the
  code points Python counts as whitespace.
\<close>

definition py_isspace :: "nat \<Rightarrow> bool" where
  "py_isspace c =
     ((9 \<le> c \<and> c \<le> 13) \<or> (28 \<le> c \<and> c \<le> 32) \<or> c = 133 \<or> c = 160 \<or> c = 5760 \<or>
      (8192 \<le> c \<and> c \<le> 8202) \<or> c = 8232 \<or> c = 8233 \<or> c = 8239 \<or> c = 8287 \<or> c = 12288)"

definition py_strip :: "pystr \<Rightarrow> pystr" where
  "py_strip s = rev (dropWhile py_isspace (rev (dropWhile py_isspace s)))"

subsection \<open>Gemini API call\<close>

text \<open>
  \<^verbatim>\<open>requests.post\<close> is the argument \<open>post\<close>: given the URL and the JSON payload it raises
  (no connection, timeout) or returns a response, of which the program reads the status
  and the parsed body; \<open>body\<close> is \<open>None\<close> where \<^verbatim>\<open>resp.json()\<close> raises.
  \<^verbatim>\<open>raise_for_status\<close> raises for a status from 400 to 599.
\<close>

record response =
  status_code :: int
  body :: "json option"

definition GEMINI_URL :: pystr where
  "GEMINI_URL =
     str ''https://generativelanguage.googleapis.com/v1beta/'' @
     str ''models/gemini-2.0-flash:generateContent''"

definition request_payload :: "pystr \<Rightarrow> json" where
  "request_payload prompt =
     JObj [(str ''contents'', JArr [JObj [(str ''parts'', JArr [JObj [(str ''text'', JStr prompt)]])]])]"

definition raise_for_status :: "response \<Rightarrow> exn option" where
  "raise_for_status resp =
     (if 400 \<le> status_code resp \<and> status_code resp < 600
      then Some (HTTPError (status_code resp)) else None)"

text \<open>\<^verbatim>\<open>"".join(p.get("text", "") for p in parts)\<close>\<close>

definition join_part_texts :: "json \<Rightarrow> exn + pystr" where
  "join_part_texts parts =
     (case py_iter parts of
        Inl e \<Rightarrow> Inl e
      | Inr ps \<Rightarrow> (case get_texts ps of Inl e \<Rightarrow> Inl e | Inr ts \<Rightarrow> join_empty ts))"

text \<open>The last line of the function, from the first candidate on.\<close>

definition candidate_text :: "json \<Rightarrow> exn + pystr" where
  "candidate_text cands =
     (case subscript_zero cands of
        Inl e \<Rightarrow> Inl e
      | Inr c0 \<Rightarrow>
          (case subscript_key c0 (str ''content'') of
             Inl e \<Rightarrow> Inl e
           | Inr content \<Rightarrow>
               (case subscript_key content (str ''parts'') of
                  Inl e \<Rightarrow> Inl e
                | Inr parts \<Rightarrow>
                    (case join_part_texts parts of
                       Inl e \<Rightarrow> Inl e
                     | Inr s \<Rightarrow> Inr (py_strip s)))))"

definition generate_with_gemini ::
  "(pystr \<Rightarrow> json \<Rightarrow> exn + response) \<Rightarrow> pystr \<Rightarrow> pystr \<Rightarrow> exn + pystr" where
  "generate_with_gemini post prompt api_key =
     (case post (GEMINI_URL @ str ''?key='' @ api_key) (request_payload prompt) of
        Inl e \<Rightarrow> Inl e
      | Inr resp \<Rightarrow>
          (case raise_for_status resp of
             Some e \<Rightarrow> Inl e
           | None \<Rightarrow>
               (case body resp of
                  None \<Rightarrow> Inl JSONDecodeError
                | Some j \<Rightarrow>
                    (case py_get j (str ''candidates'') (JArr []) of
                       Inl e \<Rightarrow> Inl e
                     | Inr cands \<Rightarrow>
                         if \<not> truthy cands
                         then Inl (RuntimeError (str ''No response from Gemini API.''))
                         else candidate_text cands))))"

subsection \<open>Dictionaries\<close>

text \<open>
  The settings are a Python \<^verbatim>\<open>dict\<close>: items in insertion order, the keys hashable values
  (here: strings, numbers, booleans, \<^verbatim>\<open>None\<close>).  Python takes \<^verbatim>\<open>True\<close> and 1, and \<^verbatim>\<open>False\<close> and
  0, for the same key; \<open>key_norm\<close> maps a key to the representative compared.  Storing
  under a key that is present replaces the value and keeps the key and its place;
  a new key goes to the end.
\<close>

type_synonym dict = "(json \<times> json) list"

fun key_norm :: "json \<Rightarrow> json" where
  "key_norm (JBool b) = JNum (if b then 1 else 0)"
| "key_norm k = k"

fun hashable :: "json \<Rightarrow> bool" where
  "hashable (JArr xs) = False"
| "hashable (JObj kvs) = False"
| "hashable k = True"

fun getitem :: "dict \<Rightarrow> json \<Rightarrow> json option" where
  "getitem [] k = None"
| "getitem ((k', v') # d) k = (if key_norm k' = key_norm k then Some v' else getitem d k)"

fun setitem :: "dict \<Rightarrow> json \<Rightarrow> json \<Rightarrow> dict" where
  "setitem [] k v = [(k, v)]"
| "setitem ((k', v') # d) k v =
     (if key_norm k' = key_norm k then (k', v) # d else (k', v') # setitem d k v)"

text \<open>
  \<^verbatim>\<open>cfg.update(other)\<close> for a value \<^verbatim>\<open>other\<close> that \<^verbatim>\<open>json.loads\<close> returned; the result is the
  dictionary as the call leaves it and the exception it raised, if any.  A \<^verbatim>\<open>dict\<close> is
  merged item by item.  Anything else is iterated as a sequence of pairs: each element
  must itself be a sequence of length two (a list, a string of two characters, a
  \<^verbatim>\<open>dict\<close> of two keys) whose first element is hashable; the pairs before the first
  element that fails are stored.
\<close>

fun pair_of :: "json \<Rightarrow> exn + json \<times> json" where
  "pair_of (JArr xs) = (case xs of [k, v] \<Rightarrow> Inr (k, v) | _ \<Rightarrow> Inl ValueError)"
| "pair_of (JStr s) = (case s of [a, b] \<Rightarrow> Inr (JStr [a], JStr [b]) | _ \<Rightarrow> Inl ValueError)"
| "pair_of (JObj kvs) =
     (case kvs of [(a, x), (b, y)] \<Rightarrow> Inr (JStr a, JStr b) | _ \<Rightarrow> Inl ValueError)"
| "pair_of x = Inl TypeError"

fun update_pairs :: "dict \<Rightarrow> json list \<Rightarrow> dict \<times> exn option" where
  "update_pairs d [] = (d, None)"
| "update_pairs d (x # xs) =
     (case pair_of x of
        Inl e \<Rightarrow> (d, Some e)
      | Inr (k, v) \<Rightarrow>
          if hashable k then update_pairs (setitem d k v) xs else (d, Some TypeError))"

fun update_items :: "dict \<Rightarrow> (pystr \<times> json) list \<Rightarrow> dict" where
  "update_items d [] = d"
| "update_items d ((k, v) # kvs) = update_items (setitem d (JStr k) v) kvs"

fun dict_update :: "dict \<Rightarrow> json \<Rightarrow> dict \<times> exn option" where
  "dict_update d (JObj kvs) = (update_items d kvs, None)"
| "dict_update d (JArr xs) = update_pairs d xs"
| "dict_update d (JStr s) = (d, if s = [] then None else Some ValueError)"
| "dict_update d x = (d, Some TypeError)"

subsection \<open>Settings I/O\<close>

text \<open>
  The settings file as \<open>load_config\<close> meets it: missing; present but \<^verbatim>\<open>read_text\<close> raises;
  a text that \<^verbatim>\<open>json.loads\<close> rejects; or a text that \<^verbatim>\<open>json.loads\<close> parses to a value.  A
  text is identified with the value it parses to, so writing \<^verbatim>\<open>json.dumps(cfg)\<close> leaves a
  file that holds the value \<^verbatim>\<open>json.loads\<close> gives back for it: \<^verbatim>\<open>dumps\<close> writes a key that is
  no string as a string (\<^verbatim>\<open>1\<close> as \<^verbatim>\<open>"1"\<close>, \<^verbatim>\<open>True\<close> as \<^verbatim>\<open>"true"\<close>, \<^verbatim>\<open>None\<close> as \<^verbatim>\<open>"null"\<close>), and
  \<^verbatim>\<open>loads\<close> keeps the last value of a key that is written twice.
\<close>

datatype config_file = Missing | Unreadable | Garbled | Holds json

definition show_int :: "int \<Rightarrow> pystr" where
  "show_int n = (if n < 0 then str ''-'' @ show_nat (nat (- n)) else show_nat (nat n))"

fun key_string :: "json \<Rightarrow> pystr" where
  "key_string (JStr s) = s"
| "key_string (JNum n) = show_int n"
| "key_string (JBool b) = (if b then str ''true'' else str ''false'')"
| "key_string k = str ''null''"

fun obj_set :: "(pystr \<times> json) list \<Rightarrow> pystr \<Rightarrow> json \<Rightarrow> (pystr \<times> json) list" where
  "obj_set [] k v = [(k, v)]"
| "obj_set ((k', v') # kvs) k v =
     (if k' = k then (k', v) # kvs else (k', v') # obj_set kvs k v)"

fun obj_of_items :: "(pystr \<times> json) list \<Rightarrow> (pystr \<times> json) list \<Rightarrow> (pystr \<times> json) list" where
  "obj_of_items acc [] = acc"
| "obj_of_items acc ((k, v) # kvs) = obj_of_items (obj_set acc k v) kvs"

text \<open>The value \<^verbatim>\<open>json.loads(json.dumps(cfg, indent=2))\<close>.\<close>

definition dumped :: "dict \<Rightarrow> json" where
  "dumped cfg = JObj (obj_of_items [] (map (\<lambda>kv. (key_string (fst kv), snd kv)) cfg))"

text \<open>The defaults of \<open>load_config\<close>; \<open>cwd\<close> is \<^verbatim>\<open>str(Path.cwd())\<close>.\<close>

definition default_config :: "pystr \<Rightarrow> dict" where
  "default_config cwd =
     [(JStr (str ''project_folder''), JStr cwd),
      (JStr (str ''report_style''), JStr (str ''short'')),
      (JStr (str ''branches''), JArr []),
      (JStr (str ''api_key''), JStr []),
      (JStr (str ''prompt_template''), JStr [])]"

text \<open>
  \<open>load_config\<close> returns the dictionary and whether the warning ``Config corrupted - using
  defaults.'' was shown.  Any exception of reading, parsing or updating is caught.
\<close>

definition load_config :: "pystr \<Rightarrow> config_file \<Rightarrow> dict \<times> bool" where
  "load_config cwd file =
     (let cfg = default_config cwd in
      case file of
        Missing \<Rightarrow> (cfg, False)
      | Unreadable \<Rightarrow> (cfg, True)
      | Garbled \<Rightarrow> (cfg, True)
      | Holds j \<Rightarrow>
          (case dict_update cfg j of
             (cfg', None) \<Rightarrow> (cfg', False)
           | (cfg', Some e) \<Rightarrow> (cfg', True)))"

text \<open>
  \<open>save_config\<close> returns the file it leaves and whether ``Settings saved.'' was shown
  (otherwise the error dialog was).  \<open>fault\<close> is \<open>None\<close> when \<^verbatim>\<open>write_text\<close> succeeds, and
  the file a failing \<^verbatim>\<open>write_text\<close> leaves behind otherwise.
\<close>

definition save_config :: "dict \<Rightarrow> config_file option \<Rightarrow> config_file \<Rightarrow> config_file \<times> bool" where
  "save_config cfg fault file =
     (case fault of
        None \<Rightarrow> (Holds (dumped cfg), True)
      | Some left \<Rightarrow> (left, False))"

subsection \<open>What the commit loop is specified to select\<close>

text \<open>
  The window of the specification, in its words: the local date is the target date and
  the time of day lies between 00:00:00 and 23:59:59, both included.  The code compares
  against 23:59:59.999999 instead (\<open>time_max\<close>).
\<close>

definition day_window :: "date \<Rightarrow> datetime \<Rightarrow> bool" where
  "day_window d cd =
     (dt_date cd = d \<and>
      lex_le [0, 0, 0] [hour (dt_time cd), minute (dt_time cd), second (dt_time cd)] \<and>
      lex_le [hour (dt_time cd), minute (dt_time cd), second (dt_time cd)] [23, 59, 59])"

definition commit_in_window :: "(int \<Rightarrow> struct_tm option) \<Rightarrow> date \<Rightarrow> commit \<Rightarrow> bool" where
  "commit_in_window localtime d c =
     (case fromtimestamp localtime (committed_date c) of
        Inl e \<Rightarrow> False
      | Inr cd \<Rightarrow> day_window d cd)"

text \<open>
  The branches a request names: those given, or the active branch when none is given
  (\<open>None\<close> when there is no active branch either).
\<close>

definition requested :: "repo \<Rightarrow> pystr list \<Rightarrow> pystr list option" where
  "requested r B =
     (if B = [] then (case active_branch r of None \<Rightarrow> None | Some b \<Rightarrow> Some [b]) else Some B)"

text \<open>
  The patch the specification asks for: the diff of the commit against its first parent,
  or for a commit without parents what \<^verbatim>\<open>git show\<close> prints of it.
\<close>

definition patch_of :: "repo \<Rightarrow> commit \<Rightarrow> exn + pystr" where
  "patch_of r c =
     (if parents c = [] then git_show r (hexsha c)
      else git_diff r (hd (parents c)) (hexsha c))"

text \<open>
  \<open>e\<close> is the entry of commit \<open>c\<close> on branch \<open>br\<close>: the f-string around its patch;
  \<open>entry_text\<close> is that entry where the patch is produced.
\<close>

definition is_entry :: "repo \<Rightarrow> pystr \<Rightarrow> commit \<Rightarrow> pystr \<Rightarrow> bool" where
  "is_entry r br c e =
     (case patch_of r c of
        Inl x \<Rightarrow> False
      | Inr patch \<Rightarrow> e = diff_entry c br patch)"

definition entry_text :: "repo \<Rightarrow> pystr \<Rightarrow> commit \<Rightarrow> pystr" where
  "entry_text r br c = (case patch_of r c of Inl x \<Rightarrow> [] | Inr patch \<Rightarrow> diff_entry c br patch)"

definition commits_of :: "repo \<Rightarrow> pystr \<Rightarrow> commit list" where
  "commits_of r br = (case iter_commits r br of Inl e \<Rightarrow> [] | Inr cs \<Rightarrow> cs)"

text \<open>
  The library calls of a request succeed: the timestamp of every commit visited
  converts to a local datetime, the patch of every commit inside the window is
  produced, and every branch resolves to its commits.
\<close>

definition commit_ok :: "(int \<Rightarrow> struct_tm option) \<Rightarrow> repo \<Rightarrow> date \<Rightarrow> commit \<Rightarrow> bool" where
  "commit_ok localtime r d c =
     (case fromtimestamp localtime (committed_date c) of
        Inl e \<Rightarrow> False
      | Inr cd \<Rightarrow>
          if day_window d cd then (case patch_of r c of Inl e \<Rightarrow> False | Inr p \<Rightarrow> True)
          else True)"

definition branch_ok :: "(int \<Rightarrow> struct_tm option) \<Rightarrow> repo \<Rightarrow> date \<Rightarrow> pystr \<Rightarrow> bool" where
  "branch_ok localtime r d br =
     (case iter_commits r br of
        Inl e \<Rightarrow> False
      | Inr cs \<Rightarrow> list_all (commit_ok localtime r d) cs)"

text \<open>
  The (branch, commit) pairs a request selects: for each branch in the order given, the
  commits of the branch inside the window, in traversal order.
\<close>

definition selection ::
  "(int \<Rightarrow> struct_tm option) \<Rightarrow> repo \<Rightarrow> date \<Rightarrow> pystr list \<Rightarrow> (pystr \<times> commit) list" where
  "selection localtime r d brs =
     concat (map (\<lambda>br. map (Pair br) (filter (commit_in_window localtime d) (commits_of r br))) brs)"

text \<open>The entries of one branch: one per selected commit, in traversal order.\<close>

definition branch_entries ::
  "(int \<Rightarrow> struct_tm option) \<Rightarrow> repo \<Rightarrow> date \<Rightarrow> pystr \<Rightarrow> pystr list" where
  "branch_entries localtime r d br =
     map (entry_text r br) (filter (commit_in_window localtime d) (commits_of r br))"

subsection \<open>The text fragments of a response\<close>

text \<open>
  The text fragments of the first candidate of a parsed response, where the response
  has the shape the program reads: an object whose \<^verbatim>\<open>candidates\<close> is a list that starts with
  an object, whose \<^verbatim>\<open>content\<close> is an object, whose \<^verbatim>\<open>parts\<close> is a list of objects, each with
  a string under \<^verbatim>\<open>text\<close> or without that key (then its fragment is empty).  Empty
  \<^verbatim>\<open>parts\<close> may also be an empty string or an empty object.  For every other response the
  result is \<open>None\<close>.
\<close>

fun part_text :: "json \<Rightarrow> pystr option" where
  "part_text (JObj f) =
     (case obj_get f (str ''text'') of
        None \<Rightarrow> Some []
      | Some (JStr t) \<Rightarrow> Some t
      | Some x \<Rightarrow> None)"
| "part_text x = None"

fun parts_texts :: "json list \<Rightarrow> pystr list option" where
  "parts_texts [] = Some []"
| "parts_texts (p # ps) =
     (case part_text p of
        None \<Rightarrow> None
      | Some t \<Rightarrow> (case parts_texts ps of None \<Rightarrow> None | Some ts \<Rightarrow> Some (t # ts)))"

fun parts_list :: "json \<Rightarrow> json list option" where
  "parts_list (JArr ps) = Some ps"
| "parts_list (JStr s) = (if s = [] then Some [] else None)"
| "parts_list (JObj kvs) = (if kvs = [] then Some [] else None)"
| "parts_list x = None"

definition candidate_fragments :: "json \<Rightarrow> pystr list option" where
  "candidate_fragments j =
     (case j of
        JObj kvs \<Rightarrow>
          (case obj_get kvs (str ''candidates'') of
             Some (JArr (JObj c # cs)) \<Rightarrow>
               (case obj_get c (str ''content'') of
                  Some (JObj ct) \<Rightarrow>
                    (case obj_get ct (str ''parts'') of
                       Some parts \<Rightarrow>
                         (case parts_list parts of
                            Some ps \<Rightarrow> parts_texts ps
                          | None \<Rightarrow> None)
                     | None \<Rightarrow> None)
                | _ \<Rightarrow> None)
           | _ \<Rightarrow> None)
      | _ \<Rightarrow> None)"

text \<open>The response has no candidates: the key is absent or its value is false in Python.\<close>

definition no_candidates :: "json \<Rightarrow> bool" where
  "no_candidates j =
     (case j of
        JObj kvs \<Rightarrow>
          (case obj_get kvs (str ''candidates'') of None \<Rightarrow> True | Some c \<Rightarrow> \<not> truthy c)
      | _ \<Rightarrow> False)"

subsection \<open>Example responses\<close>

definition ex_body_ok :: json where
  "ex_body_ok =
     JObj [(str ''candidates'',
       JArr [JObj [(str ''content'',
         JObj [(str ''parts'', JArr [JObj [(str ''text'', JStr (str ''Did X.''))]])])]])]"

definition ex_body_padded :: json where
  "ex_body_padded =
     JObj [(str ''candidates'',
       JArr [JObj [(str ''content'',
         JObj [(str ''parts'',
           JArr [JObj [(str ''text'', JStr (str '' Did X.''))],
                 JObj [(str ''text'', JStr (str '' Did Y.\<newline>''))]]),
               (str ''role'', JStr (str ''model''))])]])]"

definition ex_body_blocked :: json where
  "ex_body_blocked =
     JObj [(str ''candidates'', JArr [JObj [(str ''finishReason'', JStr (str ''SAFETY''))]])]"

definition ex_post :: "json option \<Rightarrow> pystr \<Rightarrow> json \<Rightarrow> exn + response" where
  "ex_post b url payload = Inr \<lparr>status_code = 200, body = b\<rparr>"

text \<open>What a call returned, if it returned.\<close>

definition returned :: "exn + 'a \<Rightarrow> 'a option" where
  "returned x = (case x of Inl e \<Rightarrow> None | Inr v \<Rightarrow> Some v)"

definition ex_post_fails :: "pystr \<Rightarrow> json \<Rightarrow> exn + response" where
  "ex_post_fails url payload = Inl RequestException"

definition ex_post_status :: "int \<Rightarrow> pystr \<Rightarrow> json \<Rightarrow> exn + response" where
  "ex_post_status n url payload = Inr \<lparr>status_code = n, body = Some ex_body_ok\<rparr>"

definition ex_body_empty :: json where
  "ex_body_empty = JObj [(str ''candidates'', JArr [])]"

text \<open>A response whose \<^verbatim>\<open>parts\<close> is a number.\<close>

definition ex_body_parts_number :: json where
  "ex_body_parts_number =
     JObj [(str ''candidates'',
       JArr [JObj [(str ''content'', JObj [(str ''parts'', JNum 5)])]])]"

subsection \<open>Preference records\<close>

text \<open>
  Python's \<^verbatim>\<open>a == b\<close> for two dictionaries: each item of one is an item of the other.
  A well-formed dictionary has no key twice; a preferences record is a well-formed
  dictionary with string keys that has the five settings.
\<close>

definition dict_items_in :: "dict \<Rightarrow> dict \<Rightarrow> bool" where
  "dict_items_in a b = list_all (\<lambda>kv. getitem b (fst kv) = Some (snd kv)) a"

definition dict_eq :: "dict \<Rightarrow> dict \<Rightarrow> bool" where
  "dict_eq a b = (dict_items_in a b \<and> dict_items_in b a)"

fun norm_keys :: "dict \<Rightarrow> json list" where
  "norm_keys [] = []"
| "norm_keys ((k, v) # d) = key_norm k # norm_keys d"

definition is_dict :: "dict \<Rightarrow> bool" where
  "is_dict d = distinct (norm_keys d)"

fun is_str :: "json \<Rightarrow> bool" where
  "is_str (JStr s) = True"
| "is_str x = False"

definition default_keys :: "pystr list" where
  "default_keys =
     [str ''project_folder'', str ''report_style'', str ''branches'', str ''api_key'',
      str ''prompt_template'']"

definition has_key :: "dict \<Rightarrow> pystr \<Rightarrow> bool" where
  "has_key d k = (case getitem d (JStr k) of None \<Rightarrow> False | Some v \<Rightarrow> True)"

definition is_preferences :: "dict \<Rightarrow> bool" where
  "is_preferences cfg =
     (is_dict cfg \<and> list_all (\<lambda>kv. is_str (fst kv)) cfg \<and> list_all (has_key cfg) default_keys)"

subsection \<open>Example settings\<close>

text \<open>The record the ``Save settings'' button writes: the five settings and the date.\<close>

definition ex_cfg :: dict where
  "ex_cfg =
     [(JStr (str ''project_folder''), JStr (str ''/work/app'')),
      (JStr (str ''report_style''), JStr (str ''long'')),
      (JStr (str ''branches''), JArr [JStr (str ''main''), JStr (str ''dev'')]),
      (JStr (str ''api_key''), JStr (str ''secret'')),
      (JStr (str ''prompt_template''), JStr (str ''Write it.'')),
      (JStr (str ''date''), JStr (str ''2025-04-09''))]"

definition ex_partial_file :: config_file where
  "ex_partial_file =
     Holds (JObj [(str ''report_style'', JStr (str ''medium'')),
                  (str ''theme'', JStr (str ''dark''))])"

text \<open>
  The value an object of the settings file gives a key: that of its item with the key
  (of the last one, should the key stand twice); keys that are no strings have none.
\<close>

definition file_value :: "(pystr \<times> json) list \<Rightarrow> json \<Rightarrow> json option" where
  "file_value kvs k = (case k of JStr s \<Rightarrow> map_of (rev kvs) s | _ \<Rightarrow> None)"

subsection \<open>An example repository\<close>

text \<open>
  Two branches that share history.  \<open>main\<close> is c3, c2, c1 and \<open>dev\<close> is c5, c4, c2, c1; c1
  is a root commit and c5 merges c4 (its first parent) and c2.  On 2025-04-09 local time
  c1 was committed at 00:00:00, c5 at 12:00:00 and c2 at 23:59:59; c4 one second before
  that day and c3 one second after it.  The path \<^verbatim>\<open>/work\<close> exists and holds no repository;
  every other path does not exist.
\<close>

definition ex_day :: date where
  "ex_day = \<lparr>year = 2025, month = 4, day = 9\<rparr>"

definition ex_localtime :: "int \<Rightarrow> struct_tm option" where
  "ex_localtime t =
     (if t = 1744156799 then
        Some \<lparr>tm_year = 2025, tm_mon = 4, tm_mday = 8, tm_hour = 23, tm_min = 59, tm_sec = 59\<rparr>
      else if t = 1744156800 then
        Some \<lparr>tm_year = 2025, tm_mon = 4, tm_mday = 9, tm_hour = 0, tm_min = 0, tm_sec = 0\<rparr>
      else if t = 1744200000 then
        Some \<lparr>tm_year = 2025, tm_mon = 4, tm_mday = 9, tm_hour = 12, tm_min = 0, tm_sec = 0\<rparr>
      else if t = 1744243199 then
        Some \<lparr>tm_year = 2025, tm_mon = 4, tm_mday = 9, tm_hour = 23, tm_min = 59, tm_sec = 59\<rparr>
      else if t = 1744243200 then
        Some \<lparr>tm_year = 2025, tm_mon = 4, tm_mday = 10, tm_hour = 0, tm_min = 0, tm_sec = 0\<rparr>
      else None)"

definition ex_c1 :: commit where
  "ex_c1 = \<lparr>hexsha = str ''1111111aaa'', committed_date = 1744156800, parents = []\<rparr>"

definition ex_c2 :: commit where
  "ex_c2 = \<lparr>hexsha = str ''2222222bbb'', committed_date = 1744243199,
            parents = [str ''1111111aaa'']\<rparr>"

definition ex_c3 :: commit where
  "ex_c3 = \<lparr>hexsha = str ''3333333ccc'', committed_date = 1744243200,
            parents = [str ''2222222bbb'']\<rparr>"

definition ex_c4 :: commit where
  "ex_c4 = \<lparr>hexsha = str ''4444444ddd'', committed_date = 1744156799,
            parents = [str ''1111111aaa'']\<rparr>"

definition ex_c5 :: commit where
  "ex_c5 = \<lparr>hexsha = str ''5555555eee'', committed_date = 1744200000,
            parents = [str ''4444444ddd'', str ''2222222bbb'']\<rparr>"

definition ex_repo :: repo where
  "ex_repo =
     \<lparr>heads = [str ''main'', str ''dev''],
      active_branch = Some (str ''main''),
      iter_commits = (\<lambda>rev.
        if rev = str ''main'' then Inr [ex_c3, ex_c2, ex_c1]
        else if rev = str ''dev'' then Inr [ex_c5, ex_c4, ex_c2, ex_c1]
        else Inl GitCommandError),
      git_diff = (\<lambda>a b. Inr (str ''diff '' @ a @ str '' '' @ b)),
      git_show = (\<lambda>a. Inr (str ''show '' @ a))\<rparr>"

definition ex_Repo :: "pystr \<Rightarrow> exn + repo" where
  "ex_Repo p =
     (if p = str ''/work/app'' then Inr ex_repo
      else if p = str ''/work'' then Inl InvalidGitRepositoryError
      else Inl (NoSuchPathError p))"

section \<open>Properties of the Git helpers\<close>

lemmas ex_defs = ex_day_def ex_localtime_def ex_c1_def ex_c2_def ex_c3_def ex_c4_def ex_c5_def
  ex_repo_def ex_Repo_def

lemmas window_defs = commit_in_window_def day_window_def fromtimestamp_def check_date_args_def
  check_time_args_def days_in_month_def is_leap_def

lemmas entry_defs = is_entry_def patch_of_def diff_entry_def

subsection \<open>The commit loop\<close>

text \<open>
  The test of the loop selects the window of the specification: a converted timestamp
  has no microseconds, so the bound 23:59:59.999999 admits what 23:59:59 admits.
\<close>

lemma in_day_window:
  "fromtimestamp localtime t = Inr cd \<Longrightarrow> in_day d cd = day_window d cd"
  by (cases d)
     (auto simp: fromtimestamp_def in_day_def day_window_def datetime_le_def datetime_key_def
      combine_def time_min_def time_max_def Let_def split: option.splits if_splits)

lemma commit_patch_spec: "commit_patch r c = patch_of r c"
  by (cases "parents c") (simp_all add: commit_patch_def patch_of_def)

lemma is_entry_text:
  "is_entry r br c e \<longleftrightarrow> (\<exists>p. patch_of r c = Inr p) \<and> e = entry_text r br c"
  by (cases "patch_of r c") (simp_all add: is_entry_def entry_text_def)

text \<open>
  The loop over the commits of a branch returns exactly when the calls succeed on every
  commit, and then it has appended the entries of the commits inside the window.
\<close>

lemma commits_loop_iff:
  "commits_loop localtime r d br cs acc = Inr out \<longleftrightarrow>
     list_all (commit_ok localtime r d) cs \<and>
     out = acc @ map (entry_text r br) (filter (commit_in_window localtime d) cs)"
proof (induction cs arbitrary: acc)
  case Nil
  then show ?case by auto
next
  case (Cons c cs)
  show ?case
  proof (cases "fromtimestamp localtime (committed_date c)")
    case (Inl e)
    then show ?thesis by (simp add: commit_ok_def)
  next
    case (Inr cd)
    note cd = this
    show ?thesis
    proof (cases "day_window d cd")
      case False
      with cd Cons.IH[of acc] show ?thesis
        by (simp add: commit_ok_def commit_in_window_def in_day_window[OF cd])
    next
      case True
      note win = this
      show ?thesis
      proof (cases "patch_of r c")
        case (Inl e)
        with cd win show ?thesis
          by (simp add: commit_ok_def in_day_window[OF cd] commit_patch_spec)
      next
        case (Inr patch)
        with cd win Cons.IH[of "acc @ [diff_entry c br patch]"] show ?thesis
          by (simp add: commit_ok_def commit_in_window_def in_day_window[OF cd]
              commit_patch_spec entry_text_def)
      qed
    qed
  qed
qed

lemma branches_loop_iff:
  "branches_loop localtime r d brs acc = Inr out \<longleftrightarrow>
     list_all (branch_ok localtime r d) brs \<and>
     out = acc @ concat (map (branch_entries localtime r d) brs)"
proof (induction brs arbitrary: acc)
  case Nil
  then show ?case by auto
next
  case (Cons br brs)
  show ?case
  proof (cases "iter_commits r br")
    case (Inl e)
    then show ?thesis by (simp add: branch_ok_def)
  next
    case (Inr cs)
    note cs = this
    show ?thesis
    proof (cases "commits_loop localtime r d br cs acc")
      case (Inl e)
      then have "\<not> list_all (commit_ok localtime r d) cs"
        using commits_loop_iff[of localtime r d br cs acc] by auto
      with cs Inl show ?thesis by (simp add: branch_ok_def)
    next
      case (Inr mid)
      then have ok: "list_all (commit_ok localtime r d) cs"
        and mid: "mid = acc @ branch_entries localtime r d br"
        using commits_loop_iff[of localtime r d br cs acc mid] cs
        by (simp_all add: branch_entries_def commits_of_def)
      from cs Inr ok Cons.IH[of mid] show ?thesis
        by (simp add: branch_ok_def mid)
    qed
  qed
qed

lemma branches_or_active_requested:
  "branches_or_active r B = Inr brs \<longleftrightarrow> requested r B = Some brs"
  by (auto simp: branches_or_active_def requested_def split: option.splits)

text \<open>
  \<open>gather_diffs\<close> returns exactly when the path opens as a repository, the request names
  branches and the library calls succeed; what it returns are the entries of the
  branches, one branch after the other.
\<close>

lemma gather_diffs_iff:
  "gather_diffs Repo localtime path B d = Inr ds \<longleftrightarrow>
     (\<exists>r brs. Repo path = Inr r \<and> requested r B = Some brs \<and>
        list_all (branch_ok localtime r d) brs \<and>
        ds = concat (map (branch_entries localtime r d) brs))"
proof (cases "Repo path")
  case (Inl e)
  then show ?thesis by (simp add: gather_diffs_def)
next
  case (Inr r)
  show ?thesis
  proof (cases "branches_or_active r B")
    case (Inl e)
    then have "requested r B = None"
      using branches_or_active_requested[of r B] by (cases "requested r B") auto
    with Inr Inl show ?thesis by (simp add: gather_diffs_def)
  next
    case (Inr brs)
    then have "requested r B = Some brs" by (simp add: branches_or_active_requested)
    with \<open>Repo path = Inr r\<close> Inr branches_loop_iff[of localtime r d brs "[]" ds]
    show ?thesis by (simp add: gather_diffs_def)
  qed
qed

subsection \<open>Entries and selected commits\<close>

lemma selection_set:
  "(br, c) \<in> set (selection localtime r d brs) \<longleftrightarrow>
     br \<in> set brs \<and> c \<in> set (commits_of r br) \<and> commit_in_window localtime d c"
  by (auto simp: selection_def)

lemma commit_in_window_iff:
  "commit_in_window localtime d c \<longleftrightarrow>
     (\<exists>cd. fromtimestamp localtime (committed_date c) = Inr cd \<and> day_window d cd)"
  by (auto simp: commit_in_window_def split: sum.splits)

lemma selected_patch:
  assumes "list_all (branch_ok localtime r d) brs"
    and "(br, c) \<in> set (selection localtime r d brs)"
  shows "\<exists>p. patch_of r c = Inr p"
proof -
  from assms(2) have br: "br \<in> set brs" and c: "c \<in> set (commits_of r br)"
    and w: "commit_in_window localtime d c" by (simp_all add: selection_set)
  from assms(1) br have "branch_ok localtime r d br" by (simp add: list_all_iff)
  with c have "commit_ok localtime r d c"
    by (auto simp: branch_ok_def commits_of_def list_all_iff split: sum.splits)
  with w show ?thesis
    by (auto simp: commit_ok_def commit_in_window_def split: sum.splits if_splits)
qed

lemma entries_of_selection:
  "map (\<lambda>(br, c). entry_text r br c) (selection localtime r d brs) =
     concat (map (branch_entries localtime r d) brs)"
  by (induction brs) (simp_all add: selection_def branch_entries_def comp_def)

lemma list_all2_function:
  "list_all2 (\<lambda>e x. e = f x) ds xs \<longleftrightarrow> ds = map f xs"
  by (induction xs arbitrary: ds) (auto simp: list_all2_Cons2)

text \<open>
  Where the calls succeed, a list holds the entries of the selected pairs one for one
  exactly when it is the list the loops build.
\<close>

lemma entries_iff:
  assumes "list_all (branch_ok localtime r d) brs"
  shows "list_all2 (\<lambda>e (br, c). is_entry r br c e) ds (selection localtime r d brs) \<longleftrightarrow>
           ds = concat (map (branch_entries localtime r d) brs)"
proof -
  have "list_all2 (\<lambda>e (br, c). is_entry r br c e) ds (selection localtime r d brs) \<longleftrightarrow>
      list_all2 (\<lambda>e x. e = (\<lambda>(br, c). entry_text r br c) x) ds (selection localtime r d brs)"
  proof
    assume "list_all2 (\<lambda>e (br, c). is_entry r br c e) ds (selection localtime r d brs)"
    then show "list_all2 (\<lambda>e x. e = (\<lambda>(br, c). entry_text r br c) x) ds
        (selection localtime r d brs)"
      by (rule list_all2_mono) (auto simp: is_entry_text)
  next
    assume "list_all2 (\<lambda>e x. e = (\<lambda>(br, c). entry_text r br c) x) ds
        (selection localtime r d brs)"
    then show "list_all2 (\<lambda>e (br, c). is_entry r br c e) ds (selection localtime r d brs)"
      by (rule list.rel_mono_strong) (use selected_patch[OF assms] in \<open>auto simp: is_entry_text\<close>)
  qed
  then show ?thesis
    by (simp add: list_all2_function entries_of_selection)
qed


text \<open>
  When the call returns.  Where \<^verbatim>\<open>Repo(path)\<close> opens the repository, the request names
  branches (or the repository has an active branch), every branch resolves to its commits,
  every commit timestamp converts to a local datetime and \<^verbatim>\<open>git diff\<close> or \<^verbatim>\<open>git show\<close>
  succeeds on every commit inside the window, \<open>gather_diffs\<close> returns a list; if one of
  these calls fails it raises.
\<close>

lemma gather_diffs_returns:
  assumes "Repo path = Inr r" and "requested r B = Some brs"
    and "list_all (branch_ok localtime r d) brs"
  shows "\<exists>ds. gather_diffs Repo localtime path B d = Inr ds"
  using assms gather_diffs_iff[of Repo localtime path B d] by blast

lemma gather_diffs_raises:
  assumes "Repo path = Inr r" and "requested r B = Some brs"
    and "\<not> list_all (branch_ok localtime r d) brs"
  shows "\<exists>e. gather_diffs Repo localtime path B d = Inl e"
proof (cases "gather_diffs Repo localtime path B d")
  case (Inl e)
  then show ?thesis by blast
next
  case (Inr ds)
  with assms gather_diffs_iff[of Repo localtime path B d ds] show ?thesis by auto
qed

text \<open>The entries of one branch, characterised from the branch's commit traversal.\<close>

lemma branch_part_iff:
  "(\<exists>cs. iter_commits r br = Inr cs \<and> list_all (commit_ok localtime r d) cs \<and>
      list_all2 (\<lambda>e c. is_entry r br c e) part (filter (commit_in_window localtime d) cs)) \<longleftrightarrow>
   branch_ok localtime r d br \<and> part = branch_entries localtime r d br"
proof (cases "iter_commits r br")
  case (Inl e)
  then show ?thesis by (simp add: branch_ok_def)
next
  case (Inr cs)
  show ?thesis
  proof (cases "list_all (commit_ok localtime r d) cs")
    case False
    with Inr show ?thesis by (simp add: branch_ok_def)
  next
    case True
    with Inr have ok: "list_all (branch_ok localtime r d) [br]" by (simp add: branch_ok_def)
    have "list_all2 (\<lambda>e c. is_entry r br c e) part (filter (commit_in_window localtime d) cs) \<longleftrightarrow>
        list_all2 (\<lambda>e (br, c). is_entry r br c e) part (selection localtime r d [br])"
      using Inr by (simp add: selection_def commits_of_def list_all2_map2)
    also have "\<dots> \<longleftrightarrow> part = branch_entries localtime r d br"
      using entries_iff[OF ok, of part] by simp
    finally show ?thesis using Inr True by (simp add: branch_ok_def)
  qed
qed

lemma list_all2_ok_function:
  "list_all2 (\<lambda>x y. P x \<and> y = f x) xs ys \<longleftrightarrow> list_all P xs \<and> ys = map f xs"
  by (induction xs arbitrary: ys) (auto simp: list_all2_Cons1)

subsection \<open>The example repository\<close>

text \<open>
  On 9 April 2025 the example repository has, on \<open>dev\<close>, the merge commit \<open>5555555\<close> (two
  parents), commit \<open>2222222\<close> and the root commit \<open>1111111\<close>; commit \<open>4444444\<close> of \<open>dev\<close> and
  commit \<open>3333333\<close> of \<open>main\<close> are of other days.  \<open>main\<close> is the active branch.
\<close>

lemma ex_ok_main: "branch_ok ex_localtime ex_repo ex_day (str ''main'')"
  by (simp add: branch_ok_def commit_ok_def window_defs patch_of_def ex_defs str_def)

lemma ex_ok_dev: "branch_ok ex_localtime ex_repo ex_day (str ''dev'')"
  by (simp add: branch_ok_def commit_ok_def window_defs patch_of_def ex_defs str_def)

lemma ex_selection_main:
  "selection ex_localtime ex_repo ex_day [str ''main''] =
     [(str ''main'', ex_c2), (str ''main'', ex_c1)]"
  by (simp add: selection_def commits_of_def window_defs ex_defs str_def)

lemma ex_selection_dev_main:
  "selection ex_localtime ex_repo ex_day [str ''dev'', str ''main''] =
     [(str ''dev'', ex_c5), (str ''dev'', ex_c2), (str ''dev'', ex_c1),
      (str ''main'', ex_c2), (str ''main'', ex_c1)]"
  by (simp add: selection_def commits_of_def window_defs ex_defs str_def)

lemma ex_entries:
  "is_entry ex_repo (str ''main'') ex_c2
     (str ''Commit 2222222 on main:\<newline>diff 1111111aaa 2222222bbb'')"
  "is_entry ex_repo (str ''main'') ex_c1 (str ''Commit 1111111 on main:\<newline>show 1111111aaa'')"
  "is_entry ex_repo (str ''dev'') ex_c5
     (str ''Commit 5555555 on dev:\<newline>diff 4444444ddd 5555555eee'')"
  "is_entry ex_repo (str ''dev'') ex_c2
     (str ''Commit 2222222 on dev:\<newline>diff 1111111aaa 2222222bbb'')"
  "is_entry ex_repo (str ''dev'') ex_c1 (str ''Commit 1111111 on dev:\<newline>show 1111111aaa'')"
  by (simp_all add: entry_defs ex_defs str_def)


subsection \<open>Window and branches\<close>

text \<open>
  Claim C1.  For every target date \<open>d\<close> and branch list \<open>B\<close>, \<open>gather_diffs\<close> returns a list
  \<open>ds\<close> exactly when the repository opens, the requested branches resolve, the library
  calls on their commits succeed, and \<open>ds\<close> holds one entry for each selected
  (branch, commit) pair, in order.  The requested branches are \<open>B\<close>, or the active branch
  alone when \<open>B\<close> is empty.  A pair is selected exactly when the branch is requested, the
  commit is yielded by that branch, and the local datetime of its commit timestamp lies on
  date \<open>d\<close> between 00:00:00 and 23:59:59, both included.
\<close>

theorem gather_diffs_window_and_branches:
  "(gather_diffs Repo localtime path B d = Inr ds \<longleftrightarrow>
      (\<exists>r brs. Repo path = Inr r \<and> requested r B = Some brs \<and>
         list_all (branch_ok localtime r d) brs \<and>
         list_all2 (\<lambda>e (br, c). is_entry r br c e) ds (selection localtime r d brs))) \<and>
   (requested r' B = Some brs' \<longleftrightarrow>
      B = [] \<and> (\<exists>b. active_branch r' = Some b \<and> brs' = [b]) \<or> B \<noteq> [] \<and> brs' = B) \<and>
   ((br, c) \<in> set (selection localtime r' d brs') \<longleftrightarrow>
      br \<in> set brs' \<and> c \<in> set (commits_of r' br) \<and>
      (\<exists>cd. fromtimestamp localtime (committed_date c) = Inr cd \<and> day_window d cd))"
proof (intro conjI)
  show "gather_diffs Repo localtime path B d = Inr ds \<longleftrightarrow>
      (\<exists>r brs. Repo path = Inr r \<and> requested r B = Some brs \<and>
         list_all (branch_ok localtime r d) brs \<and>
         list_all2 (\<lambda>e (br, c). is_entry r br c e) ds (selection localtime r d brs))"
    unfolding gather_diffs_iff using entries_iff by blast
  show "requested r' B = Some brs' \<longleftrightarrow>
      B = [] \<and> (\<exists>b. active_branch r' = Some b \<and> brs' = [b]) \<or> B \<noteq> [] \<and> brs' = B"
    by (auto simp: requested_def split: option.splits)
  show "(br, c) \<in> set (selection localtime r' d brs') \<longleftrightarrow>
      br \<in> set brs' \<and> c \<in> set (commits_of r' br) \<and>
      (\<exists>cd. fromtimestamp localtime (committed_date c) = Inr cd \<and> day_window d cd)"
    by (simp add: selection_set commit_in_window_iff)
qed

theorem gather_diffs_window_and_branches_witness:
  "gather_diffs ex_Repo ex_localtime (str ''/work/app'') [] ex_day =
     Inr [str ''Commit 2222222 on main:\<newline>diff 1111111aaa 2222222bbb'',
          str ''Commit 1111111 on main:\<newline>show 1111111aaa''] \<and>
   gather_diffs ex_Repo ex_localtime (str ''/work/app'') [str ''dev'', str ''main''] ex_day =
     Inr [str ''Commit 5555555 on dev:\<newline>diff 4444444ddd 5555555eee'',
          str ''Commit 2222222 on dev:\<newline>diff 1111111aaa 2222222bbb'',
          str ''Commit 1111111 on dev:\<newline>show 1111111aaa'',
          str ''Commit 2222222 on main:\<newline>diff 1111111aaa 2222222bbb'',
          str ''Commit 1111111 on main:\<newline>show 1111111aaa''] \<and>
   (str ''dev'', ex_c4) \<notin> set (selection ex_localtime ex_repo ex_day [str ''dev'', str ''main'']) \<and>
   (str ''main'', ex_c2) \<in> set (selection ex_localtime ex_repo ex_day [str ''dev'', str ''main''])"
proof -
  have open_repo: "ex_Repo (str ''/work/app'') = Inr ex_repo"
    by (simp add: ex_Repo_def)
  have req1: "requested ex_repo [] = Some [str ''main'']"
    by (simp add: requested_def ex_repo_def)
  have req2: "requested ex_repo [str ''dev'', str ''main''] = Some [str ''dev'', str ''main'']"
    by (simp add: requested_def)
  have "\<exists>r brs. ex_Repo (str ''/work/app'') = Inr r \<and> requested r [] = Some brs \<and>
      list_all (branch_ok ex_localtime r ex_day) brs \<and>
      list_all2 (\<lambda>e (br, c). is_entry r br c e)
        [str ''Commit 2222222 on main:\<newline>diff 1111111aaa 2222222bbb'',
         str ''Commit 1111111 on main:\<newline>show 1111111aaa'']
        (selection ex_localtime r ex_day brs)"
    using open_repo req1 ex_ok_main ex_entries
    by (intro exI[of _ ex_repo] exI[of _ "[str ''main'']"]) (simp add: ex_selection_main)
  with gather_diffs_window_and_branches[of ex_Repo ex_localtime "str ''/work/app''" "[]" ex_day]
  have 1: "gather_diffs ex_Repo ex_localtime (str ''/work/app'') [] ex_day =
     Inr [str ''Commit 2222222 on main:\<newline>diff 1111111aaa 2222222bbb'',
          str ''Commit 1111111 on main:\<newline>show 1111111aaa'']"
    by blast
  have "\<exists>r brs. ex_Repo (str ''/work/app'') = Inr r \<and>
      requested r [str ''dev'', str ''main''] = Some brs \<and>
      list_all (branch_ok ex_localtime r ex_day) brs \<and>
      list_all2 (\<lambda>e (br, c). is_entry r br c e)
        [str ''Commit 5555555 on dev:\<newline>diff 4444444ddd 5555555eee'',
         str ''Commit 2222222 on dev:\<newline>diff 1111111aaa 2222222bbb'',
         str ''Commit 1111111 on dev:\<newline>show 1111111aaa'',
         str ''Commit 2222222 on main:\<newline>diff 1111111aaa 2222222bbb'',
         str ''Commit 1111111 on main:\<newline>show 1111111aaa'']
        (selection ex_localtime r ex_day brs)"
    using open_repo req2 ex_ok_main ex_ok_dev ex_entries
    by (intro exI[of _ ex_repo] exI[of _ "[str ''dev'', str ''main'']"])
       (simp add: ex_selection_dev_main)
  with gather_diffs_window_and_branches[of ex_Repo ex_localtime "str ''/work/app''"
      "[str ''dev'', str ''main'']" ex_day]
  have 2: "gather_diffs ex_Repo ex_localtime (str ''/work/app'') [str ''dev'', str ''main'']
      ex_day =
     Inr [str ''Commit 5555555 on dev:\<newline>diff 4444444ddd 5555555eee'',
          str ''Commit 2222222 on dev:\<newline>diff 1111111aaa 2222222bbb'',
          str ''Commit 1111111 on dev:\<newline>show 1111111aaa'',
          str ''Commit 2222222 on main:\<newline>diff 1111111aaa 2222222bbb'',
          str ''Commit 1111111 on main:\<newline>show 1111111aaa'']"
    by blast
  have 3: "(str ''dev'', ex_c4) \<notin>
      set (selection ex_localtime ex_repo ex_day [str ''dev'', str ''main''])"
    using gather_diffs_window_and_branches[of ex_Repo ex_localtime "str ''/work/app''" "[]"
        ex_day _ ex_repo "[str ''dev'', str ''main'']" "str ''dev''" ex_c4]
    by (simp add: window_defs ex_defs str_def)
  have 4: "(str ''main'', ex_c2) \<in>
      set (selection ex_localtime ex_repo ex_day [str ''dev'', str ''main''])"
    using gather_diffs_window_and_branches[of ex_Repo ex_localtime "str ''/work/app''" "[]"
        ex_day _ ex_repo "[str ''dev'', str ''main'']" "str ''main''" ex_c2]
    by (simp add: window_defs commits_of_def ex_defs str_def)
  from 1 2 3 4 show ?thesis by blast
qed

subsection \<open>First parent or root\<close>



subsection \<open>Order of the entries\<close>

text \<open>
  Claim C8.  \<open>gather_diffs\<close> returns \<open>ds\<close> exactly when the calls succeed and \<open>ds\<close> is the
  concatenation of one part per requested branch, in the order the caller gave the
  branches; the part of a branch holds one entry per commit of the branch's traversal
  that lies inside the window, in traversal order.  Nothing is removed: a commit reached
  from two requested branches has an entry in both parts.
\<close>

theorem gather_diffs_order:
  "gather_diffs Repo localtime path B d = Inr ds \<longleftrightarrow>
     (\<exists>r brs dss. Repo path = Inr r \<and> requested r B = Some brs \<and> ds = concat dss \<and>
        list_all2
          (\<lambda>br part. \<exists>cs. iter_commits r br = Inr cs \<and>
             list_all (commit_ok localtime r d) cs \<and>
             list_all2 (\<lambda>e c. is_entry r br c e) part
               (filter (commit_in_window localtime d) cs))
          brs dss)"
  unfolding branch_part_iff list_all2_ok_function gather_diffs_iff by blast

theorem gather_diffs_order_witness:
  "gather_diffs ex_Repo ex_localtime (str ''/work/app'') [str ''main'', str ''dev''] ex_day =
     Inr (concat
       [[str ''Commit 2222222 on main:\<newline>diff 1111111aaa 2222222bbb'',
         str ''Commit 1111111 on main:\<newline>show 1111111aaa''],
        [str ''Commit 5555555 on dev:\<newline>diff 4444444ddd 5555555eee'',
         str ''Commit 2222222 on dev:\<newline>diff 1111111aaa 2222222bbb'',
         str ''Commit 1111111 on dev:\<newline>show 1111111aaa'']]) \<and>
   iter_commits ex_repo (str ''main'') = Inr [ex_c3, ex_c2, ex_c1] \<and>
   iter_commits ex_repo (str ''dev'') = Inr [ex_c5, ex_c4, ex_c2, ex_c1]"
proof -
  have open_repo: "ex_Repo (str ''/work/app'') = Inr ex_repo"
    by (simp add: ex_Repo_def)
  have req: "requested ex_repo [str ''main'', str ''dev''] = Some [str ''main'', str ''dev'']"
    by (simp add: requested_def)
  have it: "iter_commits ex_repo (str ''main'') = Inr [ex_c3, ex_c2, ex_c1]"
    "iter_commits ex_repo (str ''dev'') = Inr [ex_c5, ex_c4, ex_c2, ex_c1]"
    by (simp_all add: ex_repo_def str_def)
  have m: "\<exists>cs. iter_commits ex_repo (str ''main'') = Inr cs \<and>
      list_all (commit_ok ex_localtime ex_repo ex_day) cs \<and>
      list_all2 (\<lambda>e c. is_entry ex_repo (str ''main'') c e)
        [str ''Commit 2222222 on main:\<newline>diff 1111111aaa 2222222bbb'',
         str ''Commit 1111111 on main:\<newline>show 1111111aaa'']
        (filter (commit_in_window ex_localtime ex_day) cs)"
    unfolding it
    by (simp add: commit_ok_def window_defs entry_defs ex_day_def ex_localtime_def ex_c1_def
        ex_c2_def ex_c3_def ex_repo_def str_def)
  have dv: "\<exists>cs. iter_commits ex_repo (str ''dev'') = Inr cs \<and>
      list_all (commit_ok ex_localtime ex_repo ex_day) cs \<and>
      list_all2 (\<lambda>e c. is_entry ex_repo (str ''dev'') c e)
        [str ''Commit 5555555 on dev:\<newline>diff 4444444ddd 5555555eee'',
         str ''Commit 2222222 on dev:\<newline>diff 1111111aaa 2222222bbb'',
         str ''Commit 1111111 on dev:\<newline>show 1111111aaa'']
        (filter (commit_in_window ex_localtime ex_day) cs)"
    unfolding it
    by (simp add: commit_ok_def window_defs entry_defs ex_day_def ex_localtime_def ex_c1_def
        ex_c2_def ex_c4_def ex_c5_def ex_repo_def str_def)
  have "\<exists>r brs dss. ex_Repo (str ''/work/app'') = Inr r \<and>
      requested r [str ''main'', str ''dev''] = Some brs \<and>
      concat
       [[str ''Commit 2222222 on main:\<newline>diff 1111111aaa 2222222bbb'',
         str ''Commit 1111111 on main:\<newline>show 1111111aaa''],
        [str ''Commit 5555555 on dev:\<newline>diff 4444444ddd 5555555eee'',
         str ''Commit 2222222 on dev:\<newline>diff 1111111aaa 2222222bbb'',
         str ''Commit 1111111 on dev:\<newline>show 1111111aaa'']] = concat dss \<and>
      list_all2
        (\<lambda>br part. \<exists>cs. iter_commits r br = Inr cs \<and>
           list_all (commit_ok ex_localtime r ex_day) cs \<and>
           list_all2 (\<lambda>e c. is_entry r br c e) part
             (filter (commit_in_window ex_localtime ex_day) cs))
        brs dss"
    using open_repo req m dv
    by (intro exI[of _ ex_repo] exI[of _ "[str ''main'', str ''dev'']"]
        exI[of _ "[[str ''Commit 2222222 on main:\<newline>diff 1111111aaa 2222222bbb'',
         str ''Commit 1111111 on main:\<newline>show 1111111aaa''],
        [str ''Commit 5555555 on dev:\<newline>diff 4444444ddd 5555555eee'',
         str ''Commit 2222222 on dev:\<newline>diff 1111111aaa 2222222bbb'',
         str ''Commit 1111111 on dev:\<newline>show 1111111aaa'']]"]) simp
  with gather_diffs_order[of ex_Repo ex_localtime "str ''/work/app''" "[str ''main'', str ''dev'']"
      ex_day]
  have "gather_diffs ex_Repo ex_localtime (str ''/work/app'') [str ''main'', str ''dev''] ex_day =
     Inr (concat
       [[str ''Commit 2222222 on main:\<newline>diff 1111111aaa 2222222bbb'',
         str ''Commit 1111111 on main:\<newline>show 1111111aaa''],
        [str ''Commit 5555555 on dev:\<newline>diff 4444444ddd 5555555eee'',
         str ''Commit 2222222 on dev:\<newline>diff 1111111aaa 2222222bbb'',
         str ''Commit 1111111 on dev:\<newline>show 1111111aaa'']])"
    by blast
  with it show ?thesis by simp
qed


text \<open>
  The two helpers on a path that cannot be opened.  Where \<^verbatim>\<open>Repo(path)\<close> raises
  \<^verbatim>\<open>InvalidGitRepositoryError\<close>, \<open>gather_diffs\<close> raises the \<^verbatim>\<open>RuntimeError\<close> of its handler and
  \<open>list_branches\<close> returns the empty list; any other exception of \<^verbatim>\<open>Repo(path)\<close> leaves
  both functions as it is.
\<close>

lemma gather_diffs_invalid_repository:
  "Repo path = Inl InvalidGitRepositoryError \<Longrightarrow>
     gather_diffs Repo localtime path B d = Inl (RuntimeError (str ''Not a Git repository.''))"
  by (simp add: gather_diffs_def)

lemma gather_diffs_other_exception:
  "Repo path = Inl e \<Longrightarrow> e \<noteq> InvalidGitRepositoryError \<Longrightarrow>
     gather_diffs Repo localtime path B d = Inl e"
  by (simp add: gather_diffs_def)

lemma list_branches_invalid_repository:
  "Repo path = Inl InvalidGitRepositoryError \<Longrightarrow> list_branches Repo path = Inr []"
  by (simp add: list_branches_def)

lemma list_branches_other_exception:
  "Repo path = Inl e \<Longrightarrow> e \<noteq> InvalidGitRepositoryError \<Longrightarrow> list_branches Repo path = Inl e"
  by (simp add: list_branches_def)

lemma list_branches_heads:
  "Repo path = Inr r \<Longrightarrow> list_branches Repo path = Inr (heads r)"
  by (simp add: list_branches_def)

text \<open>
  Claim C7.  A path that does not exist is not a repository, and \<open>gather_diffs\<close> does not
  fail with ``Not a Git repository.'' there: the \<^verbatim>\<open>NoSuchPathError\<close> of \<^verbatim>\<open>Repo(path)\<close> is not
  caught by the handler and leaves the function.  On the existing path without a
  repository the message is the handler's.
\<close>

theorem gather_diffs_missing_path:
  "gather_diffs ex_Repo ex_localtime (str ''/gone'') [] ex_day =
     Inl (NoSuchPathError (str ''/gone'')) \<and>
   gather_diffs ex_Repo ex_localtime (str ''/work'') [] ex_day =
     Inl (RuntimeError (str ''Not a Git repository.''))"
  by (simp add: gather_diffs_def ex_Repo_def str_def)

text \<open>
  Claim C9.  On a path that does not exist \<open>list_branches\<close> raises as well: it returns the
  empty list only for the existing path without a repository.
\<close>

theorem list_branches_missing_path:
  "list_branches ex_Repo (str ''/gone'') = Inl (NoSuchPathError (str ''/gone'')) \<and>
   list_branches ex_Repo (str ''/work'') = Inr []"
  by (simp add: list_branches_def ex_Repo_def str_def)

section \<open>Properties of the prompt builder\<close>

subsection \<open>Splitting at a separator\<close>


lemma split_scan_none:
  "\<not> sublist sep s \<Longrightarrow> split_scan sep cur s = [cur @ s]"
proof (induction s arbitrary: cur)
  case Nil
  then show ?case by simp
next
  case (Cons x xs)
  from Cons.prems have np: "\<not> prefix sep (x # xs)" and ns: "\<not> sublist sep xs"
    by (auto simp: sublist_Cons_right)
  from Cons.IH[OF ns, of "cur @ [x]"] np show ?case by simp
qed

lemma prefix_marker_nth:
  assumes "prefix (u @ c # w) t"
  shows "length u < length t \<and> t ! length u = c"
proof -
  from assms obtain r where "t = (u @ c # w) @ r" by (auto simp: prefix_def)
  then show ?thesis by (simp add: nth_append)
qed

lemma split_scan_marker:
  assumes "c \<notin> set a" and "c \<notin> set u"
  shows "split_scan (u @ c # w) cur (a @ (u @ c # w) @ b) =
           (cur @ a) # split_scan (u @ c # w) [] b"
  using assms(1)
proof (induction a arbitrary: cur)
  case Nil
  show ?case
  proof (cases u)
    case Nil
    then show ?thesis by simp
  next
    case (Cons y ys)
    then show ?thesis by simp
  qed
next
  case (Cons x a)
  have "\<not> prefix (u @ c # w) ((x # a) @ (u @ c # w) @ b)"
  proof
    assume "prefix (u @ c # w) ((x # a) @ (u @ c # w) @ b)"
    from prefix_marker_nth[OF this]
    have "((x # a) @ (u @ c # w) @ b) ! length u = c" by simp
    moreover have "length u < length ((x # a) @ u)" by simp
    ultimately have "((x # a) @ u) ! length u = c"
      by (metis append.assoc nth_append)
    moreover have "((x # a) @ u) ! length u \<in> set ((x # a) @ u)"
      by (rule nth_mem) simp
    ultimately show False using Cons.prems assms(2) by auto
  qed
  moreover from Cons.prems have "c \<notin> set a" by simp
  ultimately show ?case using Cons.IH[of "cur @ [x]"] by simp
qed

text \<open>
  The first occurrence of the separator ends the first part: if the separator does not
  occur in \<open>a\<close> followed by all but the last character of the separator, the scan of
  \<open>a @ sep @ b\<close> gives \<open>a\<close> and goes on with \<open>b\<close>.
\<close>

lemma split_scan_first:
  assumes "sep \<noteq> []" and "\<not> sublist sep (a @ butlast sep)"
  shows "split_scan sep cur (a @ sep @ b) = (cur @ a) # split_scan sep [] b"
  using assms(2)
proof (induction a arbitrary: cur)
  case Nil
  from assms(1) obtain y ys where "sep = y # ys" by (cases sep) auto
  then show ?case by simp
next
  case (Cons x a)
  have np: "\<not> prefix sep ((x # a) @ sep @ b)"
  proof
    assume "prefix sep ((x # a) @ sep @ b)"
    then have "sep = take (length sep) ((x # a) @ sep @ b)"
      by (metis append_eq_conv_conj prefix_def)
    also have "\<dots> = take (length sep) (((x # a) @ butlast sep) @ [last sep] @ b)"
      using assms(1) by (metis append.assoc append_Cons append_Nil append_butlast_last_id)
    also have "\<dots> = take (length sep) ((x # a) @ butlast sep)"
    proof -
      have "length sep \<le> length ((x # a) @ butlast sep)" by simp
      then show ?thesis by (simp only: take_append) simp
    qed
    finally have "prefix sep ((x # a) @ butlast sep)"
      by (metis take_is_prefix)
    with Cons.prems show False by auto
  qed
  from Cons.prems have "\<not> sublist sep (a @ butlast sep)"
    by (simp add: sublist_Cons_right)
  from Cons.IH[OF this, of "cur @ [x]"] np show ?case by simp
qed

text \<open>
  An occurrence of the directive in \<open>a0 @ p @ a1\<close> before the one that follows lies in
  \<open>p\<close>: its first character \<open>h\<close> occurs in neither \<open>a0\<close> nor \<open>a1\<close>, and \<open>a1\<close> starts with a
  character \<open>n\<close> that the directive does not have.
\<close>

lemma no_straddling_occurrence:
  assumes dir: "dir = h # t" and h0: "h \<notin> set a0" and h1: "h \<notin> set a1"
    and n: "n \<notin> set dir" and a1: "a1 = n # a1'" and p: "\<not> sublist dir p"
  shows "\<not> sublist dir (a0 @ p @ a1 @ butlast dir)"
proof
  assume occ: "sublist dir (a0 @ p @ a1 @ butlast dir)"
  have hd_in: "h \<in> set x" if "dir = x @ y" "x \<noteq> []" for x y
    using that dir by (cases x) auto
  from dir have ne: "dir \<noteq> []" by simp
  then have lt: "length (butlast dir) < length dir" by (cases dir) simp_all
  have short: "\<not> prefix dir (butlast dir)"
  proof
    assume "prefix dir (butlast dir)"
    then have "length dir \<le> length (butlast dir)" by (rule prefix_length_le)
    with lt show False by linarith
  qed
  have tail: "\<not> sublist dir (a1 @ butlast dir)"
  proof
    assume "sublist dir (a1 @ butlast dir)"
    then consider "sublist dir a1" | "sublist dir (butlast dir)"
      | y1 y2 where "dir = y1 @ y2" "suffix y1 a1" "prefix y2 (butlast dir)"
      unfolding sublist_append by blast
    then show False
    proof cases
      case 1
      from set_mono_sublist[OF this] dir h1 show False by auto
    next
      case 2
      from sublist_length_le[OF this] lt show False by linarith
    next
      case 3
      show False
      proof (cases "y1 = []")
        case True
        with 3 short show False by simp
      next
        case False
        from hd_in[OF 3(1) False] 3(2) h1 show False
          by (auto simp: suffix_def)
      qed
    qed
  qed
  have mid: "\<not> sublist dir (p @ a1 @ butlast dir)"
  proof
    assume "sublist dir (p @ a1 @ butlast dir)"
    then consider "sublist dir p" | "sublist dir (a1 @ butlast dir)"
      | y1 y2 where "dir = y1 @ y2" "suffix y1 p" "prefix y2 (a1 @ butlast dir)"
      unfolding sublist_append by blast
    then show False
    proof cases
      case 1
      with p show False by simp
    next
      case 2
      with tail show False by simp
    next
      case 3
      show False
      proof (cases y2)
        case Nil
        with 3 have "suffix dir p" by simp
        with p show False by auto
      next
        case (Cons z zs)
        with 3(3) a1 have "z = n" by (simp add: prefix_def)
        with Cons 3(1) n show False by auto
      qed
    qed
  qed
  from occ consider "sublist dir a0" | "sublist dir (p @ a1 @ butlast dir)"
    | x1 x2 where "dir = x1 @ x2" "suffix x1 a0" "prefix x2 (p @ a1 @ butlast dir)"
    unfolding sublist_append by blast
  then show False
  proof cases
    case 1
    from set_mono_sublist[OF this] dir h0 show False by auto
  next
    case 2
    with mid show False by simp
  next
    case 3
    show False
    proof (cases "x1 = []")
      case True
      with 3 have "prefix dir (p @ a1 @ butlast dir)" by simp
      with mid show False by auto
    next
      case False
      from hd_in[OF 3(1) False] 3(2) h0 show False
        by (auto simp: suffix_def)
    qed
  qed
qed

subsection \<open>The en dash marks the directive\<close>

lemma en_dash_str [simp]: "en_dash \<notin> set (str s)"
proof
  assume "en_dash \<in> set (str s)"
  then obtain c where "en_dash = (of_char c :: nat)" by (auto simp: str_def)
  moreover have "(of_char c :: nat) < 256" by simp
  ultimately show False by (simp add: en_dash_def)
qed

lemma show_nat_digits: "set (show_nat n) \<subseteq> {48..57}"
proof (induction n rule: show_nat.induct)
  case (1 n)
  show ?case
  proof (cases "n < 10")
    case True
    then show ?thesis by (subst show_nat.simps) auto
  next
    case False
    have "n mod 10 < 10" by simp
    then have "48 + n mod 10 \<in> {48..57}" by auto
    with False 1 show ?thesis by (subst show_nat.simps) auto
  qed
qed

lemma en_dash_show_nat [simp]: "en_dash \<notin> set (show_nat n)"
  using show_nat_digits[of n] by (auto simp: en_dash_def)

lemma en_dash_zero_fill [simp]: "en_dash \<notin> set (zero_fill w n)"
  using show_nat_digits[of "nat n"] by (auto simp: zero_fill_def en_dash_def)

lemma en_dash_month_name [simp]: "en_dash \<notin> set (month_name m)"
proof (cases "1 \<le> m \<and> m \<le> 12")
  case True
  have "length month_names = 12" by (simp add: month_names_def)
  with True have "nat (m - 1) < length month_names" by linarith
  then have "month_name m \<in> set month_names"
    using True by (simp add: month_name_def)
  then show ?thesis by (auto simp: month_names_def)
next
  case False
  then have "month_name m = []" by (auto simp: month_name_def)
  then show ?thesis by simp
qed

lemma en_dash_strftime [simp]:
  "en_dash \<notin> set (strftime_BdY d)" "en_dash \<notin> set (strftime_dmY d)"
  by (simp_all add: strftime_BdY_def strftime_dmY_def)

lemma en_dash_template_after [simp]: "en_dash \<notin> set (template_after d)"
  by (simp add: template_after_def example_def)

lemma sentence_map_Some:
  assumes "sentence_map style = Some directive"
  shows "en_dash \<notin> set style \<and>
         (\<exists>u w. directive = u @ en_dash # w \<and> en_dash \<notin> set u \<and> en_dash \<notin> set w)"
proof -
  from assms obtain a b where s: "en_dash \<notin> set style" and d: "directive = use_sentences a b"
    by (auto simp: sentence_map_def split: if_splits)
  have "directive = (str ''Use '' @ str a) @ en_dash # (str b @ str '' sentences.'')"
    using d by (simp add: use_sentences_def)
  moreover have "en_dash \<notin> set (str ''Use '' @ str a)" by simp
  moreover have "en_dash \<notin> set (str b @ str '' sentences.'')" by simp
  ultimately show ?thesis using s by blast
qed

text \<open>
  The directive starts with a capital U and has no line break; the header around the
  project name has no capital U, and the line break follows the project name.
\<close>

lemma zero_fill_digits: "set (zero_fill w n) \<subseteq> {48..57}"
  using show_nat_digits[of "nat n"] by (auto simp: zero_fill_def)

lemma month_name_no_U: "85 \<notin> set (month_name m)"
proof (cases "1 \<le> m \<and> m \<le> 12")
  case True
  have "length month_names = 12" by (simp add: month_names_def)
  with True have "nat (m - 1) < length month_names" by linarith
  then have "month_name m \<in> set month_names"
    using True by (simp add: month_name_def)
  then show ?thesis by (auto simp: month_names_def str_def)
next
  case False
  then have "month_name m = []" by (auto simp: month_name_def)
  then show ?thesis by simp
qed

lemma strftime_BdY_no_U: "85 \<notin> set (strftime_BdY d)"
  using zero_fill_digits[of 2 "day d"] show_nat_digits[of "nat (year d)"]
    month_name_no_U[of "month d"]
  by (auto simp: strftime_BdY_def str_def)

lemma sentence_map_shape:
  assumes "sentence_map style = Some directive"
  shows "85 \<notin> set style \<and> 10 \<notin> set directive \<and> (\<exists>t. directive = 85 # t)"
  using assms
  by (auto simp: sentence_map_def use_sentences_def en_dash_def str_def split: if_splits)

lemma directive_first_in_header:
  assumes sm: "sentence_map style = Some directive" and np: "\<not> sublist directive project"
  shows "\<not> sublist directive (template_before project d style @ butlast directive)"
proof -
  from sentence_map_shape[OF sm] obtain t where st: "85 \<notin> set style"
    and nl: "10 \<notin> set directive" and dir: "directive = 85 # t" by blast
  define a0 where "a0 = str ''You are an assistant that writes '' @ style @
    str '' daily stand-up updates for software engineers.\<newline>'' @ str ''Project: ''"
  define a1' where "a1' = str ''Date: '' @ strftime_BdY d @ str ''\<newline>\<newline>'' @
    str ''Here are the detailed code diffs for today:\<newline>\<newline>''"
  have h0: "85 \<notin> set a0" using st by (simp add: a0_def str_def)
  have h1: "85 \<notin> set (10 # a1')" using strftime_BdY_no_U[of d] by (simp add: a1'_def str_def)
  have tb: "template_before project d style = a0 @ project @ (10 # a1')"
    by (simp add: template_before_def a0_def a1'_def str_def)
  from no_straddling_occurrence[OF dir h0 h1 nl refl np]
  show ?thesis by (simp add: tb)
qed

subsection \<open>The prompt\<close>

text \<open>
  Where the project name does not hold the directive, the prompt is the header with the
  diffs block and a blank line put in front of the directive; the header text before
  and after the directive is kept.
\<close>

lemma build_full_prompt_spliced:
  assumes sm: "sentence_map style = Some directive" and np: "\<not> sublist directive project"
  shows "build_full_prompt diffs project d style =
           Inr (template_before project d style @ diffs_block diffs @ str ''\<newline>\<newline>'' @
                directive @ template_after d)"
proof -
  from sentence_map_Some[OF sm] obtain u w where dir: "directive = u @ en_dash # w" by blast
  then have ne: "directive \<noteq> []" by simp
  have "\<not> sublist directive (template_after d)"
  proof
    assume "sublist directive (template_after d)"
    from set_mono_sublist[OF this] dir show False by auto
  qed
  then have rest: "split_scan directive [] (template_after d) = [template_after d]"
    by (simp add: split_scan_none)
  have "split_scan directive [] (template_before project d style @ directive @ template_after d)
          = [template_before project d style, template_after d]"
    using split_scan_first[OF ne directive_first_in_header[OF sm np], of "[]" d "template_after d"]
      rest by simp
  with sm ne show ?thesis
    by (simp add: build_full_prompt_def build_template_def py_split_def)
qed

text \<open>
  Where the project name holds the directive (once, between texts without an en dash),
  the diffs block is put into the project name and the prompt ends before the header's
  own directive.
\<close>

lemma build_full_prompt_directive_in_project:
  assumes sm: "sentence_map style = Some directive"
    and pre: "en_dash \<notin> set pre" and post: "en_dash \<notin> set post"
  shows "build_full_prompt diffs (pre @ directive @ post) d style =
           Inr (str ''You are an assistant that writes '' @ style @
                str '' daily stand-up updates for software engineers.\<newline>'' @
                str ''Project: '' @ pre @ diffs_block diffs @ str ''\<newline>\<newline>'' @
                directive @ post @ str ''\<newline>'' @
                str ''Date: '' @ strftime_BdY d @ str ''\<newline>\<newline>'' @
                str ''Here are the detailed code diffs for today:\<newline>\<newline>'')"
proof -
  from sentence_map_Some[OF sm] obtain u w where st: "en_dash \<notin> set style"
    and dir: "directive = u @ en_dash # w" and u: "en_dash \<notin> set u" and w: "en_dash \<notin> set w"
    by blast
  define a0 where "a0 = str ''You are an assistant that writes '' @ style @
    str '' daily stand-up updates for software engineers.\<newline>'' @ str ''Project: '' @ pre"
  define a1 where "a1 = post @ str ''\<newline>'' @ str ''Date: '' @ strftime_BdY d @
    str ''\<newline>\<newline>'' @ str ''Here are the detailed code diffs for today:\<newline>\<newline>''"
  have a0: "en_dash \<notin> set a0" using st pre by (simp add: a0_def)
  have a1: "en_dash \<notin> set a1" using post by (simp add: a1_def)
  have header: "template_before (pre @ directive @ post) d style @ directive @ template_after d
      = a0 @ directive @ a1 @ directive @ template_after d"
    by (simp add: template_before_def a0_def a1_def)
  have "\<not> sublist directive (template_after d)"
  proof
    assume "sublist directive (template_after d)"
    from set_mono_sublist[OF this] dir show False by auto
  qed
  then have s3: "split_scan directive [] (template_after d) = [template_after d]"
    by (simp add: split_scan_none)
  have s2: "split_scan directive [] (a1 @ directive @ template_after d) = [a1, template_after d]"
    using split_scan_marker[OF a1 u, of w "[]" "template_after d"] s3 dir by simp
  have s1: "split_scan directive [] (a0 @ directive @ a1 @ directive @ template_after d)
      = [a0, a1, template_after d]"
    using split_scan_marker[OF a0 u, of w "[]" "a1 @ directive @ template_after d"] s2 dir
    by simp
  have ne: "directive \<noteq> []" using dir by simp
  have "build_full_prompt diffs (pre @ directive @ post) d style =
      Inr (a0 @ diffs_block diffs @ str ''\<newline>\<newline>'' @ directive @ a1)"
    using sm ne s1 header
    by (simp add: build_full_prompt_def build_template_def py_split_def)
  then show ?thesis by (simp add: a0_def a1_def)
qed

lemma sentence_map_short: "sentence_map (str ''short'') = Some (use_sentences ''2'' ''3'')"
  by (simp add: sentence_map_def)

text \<open>
  A style of the map always yields a prompt: the header holds the directive, so the
  split has at least two parts, and the prompt holds the diffs block followed by a blank
  line and the directive.
\<close>

lemma split_scan_not_Nil: "split_scan sep cur s \<noteq> []"
  by (induction sep cur s rule: split_scan.induct) auto

lemma split_scan_two_parts:
  "sep \<noteq> [] \<Longrightarrow> sublist sep s \<Longrightarrow> \<exists>p0 p1 rest. split_scan sep cur s = p0 # p1 # rest"
proof (induction s arbitrary: cur)
  case Nil
  then show ?case by simp
next
  case (Cons x xs)
  show ?case
  proof (cases "prefix sep (x # xs)")
    case True
    obtain q qs where "split_scan sep [] (drop (length sep) (x # xs)) = q # qs"
      using split_scan_not_Nil[of sep "[]" "drop (length sep) (x # xs)"]
      by (cases "split_scan sep [] (drop (length sep) (x # xs))") auto
    with True Cons.prems(1) show ?thesis by simp
  next
    case False
    with Cons.prems have "sublist sep xs" by (simp add: sublist_Cons_right)
    from Cons.IH[OF Cons.prems(1) this, of "cur @ [x]"] False show ?thesis by simp
  qed
qed

lemma build_template_contains:
  assumes "sentence_map style = Some directive"
  shows "\<exists>header. build_template project d style = Inr header \<and>
           sublist project header \<and> sublist (strftime_BdY d) header \<and>
           sublist (strftime_dmY d) header \<and> sublist directive header"
proof -
  let ?h = "template_before project d style @ directive @ template_after d"
  have "sublist project (template_before project d style)"
    unfolding template_before_def
    by (metis append.assoc sublist_appendI)
  then have 1: "sublist project ?h"
    by (metis sublist_append)
  have "sublist (strftime_BdY d) (template_before project d style)"
    unfolding template_before_def
    by (metis append.assoc sublist_appendI)
  then have 2: "sublist (strftime_BdY d) ?h"
    by (metis sublist_append)
  have "sublist (strftime_dmY d) (template_after d)"
    unfolding template_after_def
    by (metis append.assoc sublist_appendI)
  then have 3: "sublist (strftime_dmY d) ?h"
    by (metis sublist_append)
  have 4: "sublist directive ?h" by simp
  from assms 1 2 3 4 show ?thesis by (simp add: build_template_def)
qed

lemma build_full_prompt_returns:
  assumes "sentence_map style = Some directive"
  shows "\<exists>p0 p1. build_full_prompt diffs project d style =
           Inr (p0 @ diffs_block diffs @ str ''\<newline>\<newline>'' @ directive @ p1)"
proof -
  from sentence_map_Some[OF assms] have ne: "directive \<noteq> []" by auto
  have "sublist directive (template_before project d style @ directive @ template_after d)"
    by simp
  from split_scan_two_parts[OF ne this, of "[]"] obtain p0 p1 rest where
    "split_scan directive [] (template_before project d style @ directive @ template_after d)
       = p0 # p1 # rest" by blast
  with assms ne have "build_full_prompt diffs project d style =
      Inr (p0 @ diffs_block diffs @ str ''\<newline>\<newline>'' @ directive @ p1)"
    by (simp add: build_full_prompt_def build_template_def py_split_def)
  then show ?thesis by blast
qed

lemma sentence_map_styles:
  "sentence_map (str ''short'') = Some (str ''Use 2'' @ [en_dash] @ str ''3 sentences.'')"
  "sentence_map (str ''medium'') = Some (str ''Use 4'' @ [en_dash] @ str ''5 sentences.'')"
  "sentence_map (str ''long'') = Some (str ''Use 6'' @ [en_dash] @ str ''8 sentences.'')"
  by (simp_all add: sentence_map_def use_sentences_def str_def)

lemma diffs_block_cases:
  "diffs_block [] = str ''No code changes today.''"
  "diffs_block [x] = x"
  "diffs_block (x # y # ys) = x @ str ''\<newline>\<newline>'' @ diffs_block (y # ys)"
  by (simp_all add: diffs_block_def)

text \<open>
  Claim C4.  A project name that holds the directive makes the header hold it twice.
  The split then has three parts, the prompt is built from the first two, and the header
  text behind the directive (the examples and the final instruction) is lost: the
  prompt is not the header with the diffs block spliced in at a directive, whichever of
  the two occurrences is taken.  Here the project is named ``Use 2-3 sentences.'' (with
  the en dash), the style is short and there are no diffs.
\<close>

theorem build_full_prompt_loses_header_tail:
  "\<exists>header full.
     build_template (use_sentences ''2'' ''3'') ex_day (str ''short'') = Inr header \<and>
     build_full_prompt [] (use_sentences ''2'' ''3'') ex_day (str ''short'') = Inr full \<and>
     full = str ''You are an assistant that writes short daily stand-up updates for software engineers.\<newline>Project: No code changes today.\<newline>\<newline>'' @
            use_sentences ''2'' ''3'' @
            str ''\<newline>Date: April 09, 2025\<newline>\<newline>Here are the detailed code diffs for today:\<newline>\<newline>'' \<and>
     \<not> (\<exists>before after.
          header = before @ use_sentences ''2'' ''3'' @ after \<and>
          full = before @ diffs_block [] @ str ''\<newline>\<newline>'' @ use_sentences ''2'' ''3'' @ after)"
proof -
  define dir where "dir = use_sentences ''2'' ''3''"
  define header where
    "header = template_before dir ex_day (str ''short'') @ dir @ template_after ex_day"
  define full where "full = str ''You are an assistant that writes short daily stand-up updates for software engineers.\<newline>Project: No code changes today.\<newline>\<newline>'' @
            dir @
            str ''\<newline>Date: April 09, 2025\<newline>\<newline>Here are the detailed code diffs for today:\<newline>\<newline>''"
  have h: "build_template dir ex_day (str ''short'') = Inr header"
    by (simp add: build_template_def sentence_map_short dir_def header_def)
  have date: "strftime_BdY ex_day = str ''April 09, 2025''"
    by (simp add: strftime_BdY_def ex_day_def month_name_def month_names_def zero_fill_def
        show_nat.simps str_def)
  have f: "build_full_prompt [] dir ex_day (str ''short'') = Inr full"
  proof -
    have "en_dash \<notin> set []" by simp
    from build_full_prompt_directive_in_project[OF sentence_map_short this this, of "[]" ex_day]
    show ?thesis by (simp add: dir_def full_def date diffs_block_def str_def)
  qed
  have lh: "last header = 58"
    by (simp add: header_def template_after_def str_def)
  have lf: "last full = 10"
    by (simp add: full_def str_def)
  have ld: "last dir = 46"
    by (simp add: dir_def use_sentences_def str_def)
  have dne: "dir \<noteq> []" by (simp add: dir_def use_sentences_def)
  have "\<not> (\<exists>before after. header = before @ dir @ after \<and>
          full = before @ diffs_block [] @ str ''\<newline>\<newline>'' @ dir @ after)"
  proof
    assume "\<exists>before after. header = before @ dir @ after \<and>
          full = before @ diffs_block [] @ str ''\<newline>\<newline>'' @ dir @ after"
    then obtain before after where hd: "header = before @ dir @ after"
      and fl: "full = before @ diffs_block [] @ str ''\<newline>\<newline>'' @ dir @ after" by blast
    show False
    proof (cases "after = []")
      case True
      with hd dne have "last header = last dir" by simp
      with lh ld show False by simp
    next
      case False
      with hd have "last header = last after" by simp
      moreover from False fl have "last full = last after" by simp
      ultimately show False using lh lf by simp
    qed
  qed
  with h f show ?thesis unfolding dir_def full_def by blast
qed

text \<open>
  Claim C5.  With the project ``xUse 2-3 sentences.'', the style short and one diff the
  prompt holds neither the project name nor the date of the final instruction
  (09.04.2025): the diffs block splits the project name, and the text behind the second
  directive is dropped.
\<close>

theorem build_full_prompt_loses_project_name:
  "build_full_prompt [str ''D1''] (str ''x'' @ use_sentences ''2'' ''3'') ex_day (str ''short'') =
     Inr (str ''You are an assistant that writes short daily stand-up updates for software engineers.\<newline>Project: xD1\<newline>\<newline>'' @
          use_sentences ''2'' ''3'' @
          str ''\<newline>Date: April 09, 2025\<newline>\<newline>Here are the detailed code diffs for today:\<newline>\<newline>'') \<and>
   \<not> sublist (str ''x'' @ use_sentences ''2'' ''3'')
       (str ''You are an assistant that writes short daily stand-up updates for software engineers.\<newline>Project: xD1\<newline>\<newline>'' @
        use_sentences ''2'' ''3'' @
        str ''\<newline>Date: April 09, 2025\<newline>\<newline>Here are the detailed code diffs for today:\<newline>\<newline>'') \<and>
   \<not> sublist (strftime_dmY ex_day)
       (str ''You are an assistant that writes short daily stand-up updates for software engineers.\<newline>Project: xD1\<newline>\<newline>'' @
        use_sentences ''2'' ''3'' @
        str ''\<newline>Date: April 09, 2025\<newline>\<newline>Here are the detailed code diffs for today:\<newline>\<newline>'')"
proof -
  have date: "strftime_BdY ex_day = str ''April 09, 2025''"
    by (simp add: strftime_BdY_def ex_day_def month_name_def month_names_def zero_fill_def
        show_nat.simps str_def)
  have d2: "strftime_dmY ex_day = str ''09.04.2025''"
    by (simp add: strftime_dmY_def ex_day_def zero_fill_def show_nat.simps str_def)
  have f: "build_full_prompt [str ''D1''] (str ''x'' @ use_sentences ''2'' ''3'') ex_day (str ''short'') =
     Inr (str ''You are an assistant that writes short daily stand-up updates for software engineers.\<newline>Project: xD1\<newline>\<newline>'' @
          use_sentences ''2'' ''3'' @
          str ''\<newline>Date: April 09, 2025\<newline>\<newline>Here are the detailed code diffs for today:\<newline>\<newline>'')"
  proof -
    have "en_dash \<notin> set (str ''x'')" "en_dash \<notin> set []" by simp_all
    from build_full_prompt_directive_in_project[OF sentence_map_short this,
        of "[str ''D1'']" ex_day]
    show ?thesis by (simp add: date diffs_block_def str_def)
  qed
  have n1: "\<not> sublist (str ''x'' @ use_sentences ''2'' ''3'')
       (str ''You are an assistant that writes short daily stand-up updates for software engineers.\<newline>Project: xD1\<newline>\<newline>'' @
        use_sentences ''2'' ''3'' @
        str ''\<newline>Date: April 09, 2025\<newline>\<newline>Here are the detailed code diffs for today:\<newline>\<newline>'')"
    by (simp add: use_sentences_def en_dash_def str_def sublist_code)
  have n2: "\<not> sublist (strftime_dmY ex_day)
       (str ''You are an assistant that writes short daily stand-up updates for software engineers.\<newline>Project: xD1\<newline>\<newline>'' @
        use_sentences ''2'' ''3'' @
        str ''\<newline>Date: April 09, 2025\<newline>\<newline>Here are the detailed code diffs for today:\<newline>\<newline>'')"
    unfolding d2 by (simp add: use_sentences_def en_dash_def str_def sublist_code)
  from f n1 n2 show ?thesis by blast
qed

section \<open>Properties of the Gemini call\<close>

lemma returned_simps [simp]:
  "returned (Inl e) = None" "returned (Inr v) = Some v"
  by (simp_all add: returned_def)

lemma returned_Some: "returned x = Some v \<longleftrightarrow> x = Inr v"
  by (cases x) simp_all

lemma part_text_get:
  "returned (py_get p (str ''text'') (JStr [])) =
     (case p of JObj f \<Rightarrow> Some (case obj_get f (str ''text'') of None \<Rightarrow> JStr [] | Some v \<Rightarrow> v)
      | _ \<Rightarrow> None)"
  by (cases p) (simp_all split: option.splits)

lemma texts_joined:
  "returned (case get_texts ps of Inl e \<Rightarrow> Inl e | Inr ts \<Rightarrow> join_empty ts) =
     map_option concat (parts_texts ps)"
proof (induction ps)
  case Nil
  then show ?case by simp
next
  case (Cons p ps)
  show ?case
  proof (cases p)
    case (JObj f)
    show ?thesis
    proof (cases "get_texts ps")
      case (Inl e)
      with Cons.IH have "parts_texts ps = None" by simp
      with Inl JObj show ?thesis by (simp split: option.splits json.splits)
    next
      case (Inr ts)
      note ts = this
      show ?thesis
      proof (cases "obj_get f (str ''text'')")
        case None
        with Cons.IH ts JObj show ?thesis
          by (cases "join_empty ts"; cases "parts_texts ps") simp_all
      next
        case (Some v)
        with Cons.IH ts JObj show ?thesis
          by (cases v; cases "join_empty ts"; cases "parts_texts ps") simp_all
      qed
    qed
  qed simp_all
qed

lemma join_part_texts_returned:
  "returned (join_part_texts parts) =
     (case parts_list parts of
        None \<Rightarrow> None
      | Some ps \<Rightarrow> map_option concat (parts_texts ps))"
proof (cases parts)
  case (JStr s)
  show ?thesis
  proof (cases s)
    case Nil
    with JStr show ?thesis by (simp add: join_part_texts_def)
  next
    case (Cons c r)
    with JStr show ?thesis by (simp add: join_part_texts_def)
  qed
next
  case (JObj kvs)
  show ?thesis
  proof (cases kvs)
    case Nil
    with JObj show ?thesis by (simp add: join_part_texts_def)
  next
    case (Cons kv r)
    with JObj show ?thesis by (simp add: join_part_texts_def)
  qed
next
  case (JArr ps)
  then show ?thesis using texts_joined[of ps] by (simp add: join_part_texts_def)
qed (simp_all add: join_part_texts_def)

lemma candidate_text_returned:
  "returned (candidate_text cands) =
     (case cands of
        JArr (JObj c # cs) \<Rightarrow>
          (case obj_get c (str ''content'') of
             Some (JObj ct) \<Rightarrow>
               (case obj_get ct (str ''parts'') of
                  Some parts \<Rightarrow>
                    (case parts_list parts of
                       Some ps \<Rightarrow> map_option (\<lambda>ts. py_strip (concat ts)) (parts_texts ps)
                     | None \<Rightarrow> None)
                | None \<Rightarrow> None)
           | _ \<Rightarrow> None)
      | _ \<Rightarrow> None)"
proof -
  have tail: "returned (case join_part_texts parts of Inl e \<Rightarrow> Inl e | Inr s \<Rightarrow> Inr (py_strip s))
      = (case parts_list parts of
           Some ps \<Rightarrow> map_option (\<lambda>ts. py_strip (concat ts)) (parts_texts ps)
         | None \<Rightarrow> None)" for parts
    using join_part_texts_returned[of parts]
    by (cases "join_part_texts parts"; cases "parts_list parts") (auto simp: map_option_case split: option.splits)
  have content: "returned (case subscript_key content (str ''parts'') of Inl e \<Rightarrow> Inl e
        | Inr parts \<Rightarrow> (case join_part_texts parts of Inl e \<Rightarrow> Inl e | Inr s \<Rightarrow> Inr (py_strip s)))
      = (case content of
           JObj ct \<Rightarrow>
             (case obj_get ct (str ''parts'') of
                Some parts \<Rightarrow>
                  (case parts_list parts of
                     Some ps \<Rightarrow> map_option (\<lambda>ts. py_strip (concat ts)) (parts_texts ps)
                   | None \<Rightarrow> None)
              | None \<Rightarrow> None)
         | _ \<Rightarrow> None)" for content
    by (cases content) (simp_all add: tail split: option.splits)
  have cand: "returned (case subscript_key c0 (str ''content'') of Inl e \<Rightarrow> Inl e
        | Inr content \<Rightarrow>
            (case subscript_key content (str ''parts'') of Inl e \<Rightarrow> Inl e
             | Inr parts \<Rightarrow>
                 (case join_part_texts parts of Inl e \<Rightarrow> Inl e | Inr s \<Rightarrow> Inr (py_strip s))))
      = (case c0 of
           JObj c \<Rightarrow>
             (case obj_get c (str ''content'') of
                Some (JObj ct) \<Rightarrow>
                  (case obj_get ct (str ''parts'') of
                     Some parts \<Rightarrow>
                       (case parts_list parts of
                          Some ps \<Rightarrow> map_option (\<lambda>ts. py_strip (concat ts)) (parts_texts ps)
                        | None \<Rightarrow> None)
                   | None \<Rightarrow> None)
              | _ \<Rightarrow> None)
         | _ \<Rightarrow> None)" for c0
  proof (cases c0)
    case (JObj c)
    show ?thesis
    proof (cases "obj_get c (str ''content'')")
      case None
      with JObj show ?thesis by simp
    next
      case (Some content)
      with JObj show ?thesis using content[of content] by (cases content) simp_all
    qed
  qed simp_all
  show ?thesis
  proof (cases cands)
    case (JArr xs)
    show ?thesis
    proof (cases xs)
      case Nil
      with JArr show ?thesis by (simp add: candidate_text_def)
    next
      case (Cons c0 cs)
      with JArr show ?thesis using cand[of c0]
        by (cases c0) (simp_all add: candidate_text_def)
    qed
  next
    case (JStr s)
    then show ?thesis by (cases s) (simp_all add: candidate_text_def)
  qed (simp_all add: candidate_text_def)
qed

lemma candidate_fragments_obj:
  "map_option (\<lambda>ts. py_strip (concat ts)) (candidate_fragments (JObj kvs)) =
     (case obj_get kvs (str ''candidates'') of
        None \<Rightarrow> None
      | Some cands \<Rightarrow> if truthy cands then returned (candidate_text cands) else None)"
proof (cases "obj_get kvs (str ''candidates'')")
  case None
  then show ?thesis by (simp add: candidate_fragments_def)
next
  case (Some cands)
  show ?thesis
  proof (cases "truthy cands")
    case True
    with Some show ?thesis
      unfolding candidate_text_returned candidate_fragments_def
      by (simp split: json.splits list.splits option.splits)
  next
    case False
    with Some show ?thesis
      by (cases cands) (simp_all add: candidate_fragments_def)
  qed
qed

lemma generate_with_gemini_returned:
  "returned (generate_with_gemini post prompt api_key) =
     (case post (GEMINI_URL @ str ''?key='' @ api_key) (request_payload prompt) of
        Inl e \<Rightarrow> None
      | Inr resp \<Rightarrow>
          if 400 \<le> status_code resp \<and> status_code resp < 600 then None
          else (case body resp of
                  None \<Rightarrow> None
                | Some j \<Rightarrow> map_option (\<lambda>ts. py_strip (concat ts)) (candidate_fragments j)))"
proof (cases "post (GEMINI_URL @ str ''?key='' @ api_key) (request_payload prompt)")
  case (Inl e)
  then show ?thesis by (simp add: generate_with_gemini_def)
next
  case (Inr resp)
  show ?thesis
  proof (cases "400 \<le> status_code resp \<and> status_code resp < 600")
    case True
    with Inr show ?thesis by (simp add: generate_with_gemini_def raise_for_status_def)
  next
    case False
    note ok = this
    show ?thesis
    proof (cases "body resp")
      case None
      with Inr ok show ?thesis by (auto simp: generate_with_gemini_def raise_for_status_def)
    next
      case (Some j)
      show ?thesis
      proof (cases j)
        case (JObj kvs)
        have "returned (case py_get j (str ''candidates'') (JArr []) of
                 Inl e \<Rightarrow> Inl e
               | Inr cands \<Rightarrow>
                   if \<not> truthy cands
                   then Inl (RuntimeError (str ''No response from Gemini API.''))
                   else candidate_text cands)
            = map_option (\<lambda>ts. py_strip (concat ts)) (candidate_fragments j)"
          unfolding JObj candidate_fragments_obj
          by (simp split: option.splits)
        with Inr ok Some show ?thesis
          by (auto simp: generate_with_gemini_def raise_for_status_def)
      qed (use Inr ok Some in \<open>auto simp: generate_with_gemini_def raise_for_status_def
            candidate_fragments_def\<close>)
    qed
  qed
qed

text \<open>
  A parsed object without candidates, or with a false value under \<^verbatim>\<open>candidates\<close>, is one of
  the responses that do not have the shape of \<open>candidate_fragments\<close>; and the call raises
  exactly when the transport fails, the status is from 400 to 599, the body is no JSON,
  or the parsed body does not have that shape.
\<close>

lemma no_candidates_fragments: "no_candidates j \<Longrightarrow> candidate_fragments j = None"
  by (cases j) (auto simp: no_candidates_def candidate_fragments_def
      split: option.splits json.splits list.splits)

lemma generate_with_gemini_raises_iff:
  "(\<exists>e. generate_with_gemini post prompt api_key = Inl e) \<longleftrightarrow>
     (\<exists>e. post (GEMINI_URL @ str ''?key='' @ api_key) (request_payload prompt) = Inl e) \<or>
     (\<exists>resp. post (GEMINI_URL @ str ''?key='' @ api_key) (request_payload prompt) = Inr resp \<and>
        (400 \<le> status_code resp \<and> status_code resp < 600 \<or> body resp = None \<or>
         (\<exists>j. body resp = Some j \<and> candidate_fragments j = None)))"
proof -
  have "(\<exists>e. generate_with_gemini post prompt api_key = Inl e) \<longleftrightarrow>
      returned (generate_with_gemini post prompt api_key) = None"
    by (cases "generate_with_gemini post prompt api_key") simp_all
  then show ?thesis
    unfolding generate_with_gemini_returned
    by (auto split: sum.splits option.splits if_splits)
qed

text \<open>
  Claim C2, as amended.  The call returns exactly when the transport returned a
  response, the status is outside 400 to 599, the body parsed and it has the shape of
  \<open>candidate_fragments\<close>; it then returns the concatenation of the first candidate's text
  fragments with the whitespace at both ends removed.  It raises exactly in the other
  cases: the transport fails, or the status is from 400 to 599, or the body is no JSON,
  or the parsed body does not have that shape.  Of these, a transport error leaves the
  function as it is, a status from 400 to 599 raises \<^verbatim>\<open>HTTPError\<close>, and a parsed object
  without candidates (one of the bodies without that shape) raises
  ``No response from Gemini API.''.
\<close>

theorem generate_with_gemini_result:
  "(generate_with_gemini post prompt api_key = Inr r \<longleftrightarrow>
      (\<exists>resp j ts.
         post (GEMINI_URL @ str ''?key='' @ api_key) (request_payload prompt) = Inr resp \<and>
         \<not> (400 \<le> status_code resp \<and> status_code resp < 600) \<and>
         body resp = Some j \<and> candidate_fragments j = Some ts \<and>
         r = py_strip (concat ts))) \<and>
   ((\<exists>x. generate_with_gemini post prompt api_key = Inl x) \<longleftrightarrow>
      (\<exists>x. post (GEMINI_URL @ str ''?key='' @ api_key) (request_payload prompt) = Inl x) \<or>
      (\<exists>resp. post (GEMINI_URL @ str ''?key='' @ api_key) (request_payload prompt) = Inr resp \<and>
         (400 \<le> status_code resp \<and> status_code resp < 600 \<or> body resp = None \<or>
          (\<exists>j. body resp = Some j \<and> candidate_fragments j = None)))) \<and>
   (post (GEMINI_URL @ str ''?key='' @ api_key) (request_payload prompt) = Inl e \<longrightarrow>
      generate_with_gemini post prompt api_key = Inl e) \<and>
   (post (GEMINI_URL @ str ''?key='' @ api_key) (request_payload prompt) = Inr resp' \<and>
    400 \<le> status_code resp' \<and> status_code resp' < 600 \<longrightarrow>
      generate_with_gemini post prompt api_key = Inl (HTTPError (status_code resp'))) \<and>
   (post (GEMINI_URL @ str ''?key='' @ api_key) (request_payload prompt) = Inr resp' \<and>
    \<not> (400 \<le> status_code resp' \<and> status_code resp' < 600) \<and>
    body resp' = Some j' \<and> no_candidates j' \<longrightarrow>
      candidate_fragments j' = None \<and>
      generate_with_gemini post prompt api_key =
        Inl (RuntimeError (str ''No response from Gemini API.'')))"
proof (intro conjI impI)
  show "generate_with_gemini post prompt api_key = Inr r \<longleftrightarrow>
      (\<exists>resp j ts.
         post (GEMINI_URL @ str ''?key='' @ api_key) (request_payload prompt) = Inr resp \<and>
         \<not> (400 \<le> status_code resp \<and> status_code resp < 600) \<and>
         body resp = Some j \<and> candidate_fragments j = Some ts \<and>
         r = py_strip (concat ts))"
    unfolding returned_Some[symmetric] generate_with_gemini_returned
    by (auto split: sum.splits option.splits)
next
  show "(\<exists>x. generate_with_gemini post prompt api_key = Inl x) \<longleftrightarrow>
      (\<exists>x. post (GEMINI_URL @ str ''?key='' @ api_key) (request_payload prompt) = Inl x) \<or>
      (\<exists>resp. post (GEMINI_URL @ str ''?key='' @ api_key) (request_payload prompt) = Inr resp \<and>
         (400 \<le> status_code resp \<and> status_code resp < 600 \<or> body resp = None \<or>
          (\<exists>j. body resp = Some j \<and> candidate_fragments j = None)))"
    by (rule generate_with_gemini_raises_iff)
next
  assume "post (GEMINI_URL @ str ''?key='' @ api_key) (request_payload prompt) = Inl e"
  then show "generate_with_gemini post prompt api_key = Inl e"
    by (simp add: generate_with_gemini_def)
next
  assume "post (GEMINI_URL @ str ''?key='' @ api_key) (request_payload prompt) = Inr resp' \<and>
    400 \<le> status_code resp' \<and> status_code resp' < 600"
  then show "generate_with_gemini post prompt api_key = Inl (HTTPError (status_code resp'))"
    by (simp add: generate_with_gemini_def raise_for_status_def)
next
  assume a: "post (GEMINI_URL @ str ''?key='' @ api_key) (request_payload prompt) = Inr resp' \<and>
    \<not> (400 \<le> status_code resp' \<and> status_code resp' < 600) \<and>
    body resp' = Some j' \<and> no_candidates j'"
  then show "candidate_fragments j' = None" by (simp add: no_candidates_fragments)
next
  assume a: "post (GEMINI_URL @ str ''?key='' @ api_key) (request_payload prompt) = Inr resp' \<and>
    \<not> (400 \<le> status_code resp' \<and> status_code resp' < 600) \<and>
    body resp' = Some j' \<and> no_candidates j'"
  then obtain kvs where j: "j' = JObj kvs"
    by (cases j') (auto simp: no_candidates_def)
  from a j have "obj_get kvs (str ''candidates'') = None \<or>
      (\<exists>c. obj_get kvs (str ''candidates'') = Some c \<and> \<not> truthy c)"
    by (auto simp: no_candidates_def split: option.splits)
  with a j show "generate_with_gemini post prompt api_key =
        Inl (RuntimeError (str ''No response from Gemini API.''))"
    by (auto simp: generate_with_gemini_def raise_for_status_def)
qed

theorem generate_with_gemini_result_witness:
  "generate_with_gemini (ex_post (Some ex_body_padded)) (str ''prompt'') (str ''key'') =
     Inr (str ''Did X. Did Y.'') \<and>
   generate_with_gemini (ex_post_status 300) (str ''prompt'') (str ''key'') =
     Inr (str ''Did X.'') \<and>
   generate_with_gemini ex_post_fails (str ''prompt'') (str ''key'') = Inl RequestException \<and>
   generate_with_gemini (ex_post_status 500) (str ''prompt'') (str ''key'') =
     Inl (HTTPError 500) \<and>
   generate_with_gemini (ex_post (Some ex_body_empty)) (str ''prompt'') (str ''key'') =
     Inl (RuntimeError (str ''No response from Gemini API.'')) \<and>
   (\<exists>x. generate_with_gemini (ex_post (Some ex_body_parts_number)) (str ''prompt'')
      (str ''key'') = Inl x) \<and>
   (\<exists>x. generate_with_gemini (ex_post None) (str ''prompt'') (str ''key'') = Inl x)"
proof -
  have frag: "candidate_fragments ex_body_padded = Some [str '' Did X.'', str '' Did Y.\<newline>'']"
    by (simp add: candidate_fragments_def ex_body_padded_def obj_get_def str_def)
  have strip: "str ''Did X. Did Y.'' = py_strip (concat [str '' Did X.'', str '' Did Y.\<newline>''])"
    by (simp add: py_strip_def py_isspace_def str_def)
  have "\<exists>resp j ts.
      ex_post (Some ex_body_padded) (GEMINI_URL @ str ''?key='' @ str ''key'')
        (request_payload (str ''prompt'')) = Inr resp \<and>
      \<not> (400 \<le> status_code resp \<and> status_code resp < 600) \<and>
      body resp = Some j \<and> candidate_fragments j = Some ts \<and>
      str ''Did X. Did Y.'' = py_strip (concat ts)"
    using frag strip
    by (intro exI[of _ "\<lparr>status_code = 200, body = Some ex_body_padded\<rparr>"]
        exI[of _ ex_body_padded] exI[of _ "[str '' Did X.'', str '' Did Y.\<newline>'']"])
       (simp add: ex_post_def)
  with generate_with_gemini_result[of "ex_post (Some ex_body_padded)" "str ''prompt''"
      "str ''key''" "str ''Did X. Did Y.''", THEN conjunct1]
  have 1: "generate_with_gemini (ex_post (Some ex_body_padded)) (str ''prompt'') (str ''key'') =
     Inr (str ''Did X. Did Y.'')" by (rule iffD2)
  have frag': "candidate_fragments ex_body_ok = Some [str ''Did X.'']"
    by (simp add: candidate_fragments_def ex_body_ok_def obj_get_def str_def)
  have strip': "str ''Did X.'' = py_strip (concat [str ''Did X.''])"
    by (simp add: py_strip_def py_isspace_def str_def)
  have "\<exists>resp j ts.
      ex_post_status 300 (GEMINI_URL @ str ''?key='' @ str ''key'')
        (request_payload (str ''prompt'')) = Inr resp \<and>
      \<not> (400 \<le> status_code resp \<and> status_code resp < 600) \<and>
      body resp = Some j \<and> candidate_fragments j = Some ts \<and>
      str ''Did X.'' = py_strip (concat ts)"
    using frag' strip'
    by (intro exI[of _ "\<lparr>status_code = 300, body = Some ex_body_ok\<rparr>"]
        exI[of _ ex_body_ok] exI[of _ "[str ''Did X.'']"])
       (simp add: ex_post_status_def)
  with generate_with_gemini_result[of "ex_post_status 300" "str ''prompt''"
      "str ''key''" "str ''Did X.''", THEN conjunct1]
  have 2: "generate_with_gemini (ex_post_status 300) (str ''prompt'') (str ''key'') =
     Inr (str ''Did X.'')" by (rule iffD2)
  have 3: "generate_with_gemini ex_post_fails (str ''prompt'') (str ''key'') =
      Inl RequestException"
    using generate_with_gemini_result[of ex_post_fails "str ''prompt''" "str ''key''" _
        RequestException]
    by (simp add: ex_post_fails_def)
  have 4: "generate_with_gemini (ex_post_status 500) (str ''prompt'') (str ''key'') =
      Inl (HTTPError 500)"
    using generate_with_gemini_result[of "ex_post_status 500" "str ''prompt''" "str ''key''" _ _
        "\<lparr>status_code = 500, body = Some ex_body_ok\<rparr>"]
    by (simp add: ex_post_status_def)
  have 5: "generate_with_gemini (ex_post (Some ex_body_empty)) (str ''prompt'') (str ''key'') =
      Inl (RuntimeError (str ''No response from Gemini API.''))"
    using generate_with_gemini_result[of "ex_post (Some ex_body_empty)" "str ''prompt''"
        "str ''key''" _ _ "\<lparr>status_code = 200, body = Some ex_body_empty\<rparr>" ex_body_empty]
    by (simp add: ex_post_def no_candidates_def ex_body_empty_def obj_get_def)
  have "candidate_fragments ex_body_parts_number = None"
    by (simp add: candidate_fragments_def ex_body_parts_number_def obj_get_def str_def)
  then have "\<exists>resp. ex_post (Some ex_body_parts_number) (GEMINI_URL @ str ''?key='' @ str ''key'')
        (request_payload (str ''prompt'')) = Inr resp \<and>
      (400 \<le> status_code resp \<and> status_code resp < 600 \<or> body resp = None \<or>
       (\<exists>j. body resp = Some j \<and> candidate_fragments j = None))"
    by (intro exI[of _ "\<lparr>status_code = 200, body = Some ex_body_parts_number\<rparr>"])
       (simp add: ex_post_def)
  then have "(\<exists>x. ex_post (Some ex_body_parts_number) (GEMINI_URL @ str ''?key='' @ str ''key'')
        (request_payload (str ''prompt'')) = Inl x) \<or>
      (\<exists>resp. ex_post (Some ex_body_parts_number) (GEMINI_URL @ str ''?key='' @ str ''key'')
         (request_payload (str ''prompt'')) = Inr resp \<and>
       (400 \<le> status_code resp \<and> status_code resp < 600 \<or> body resp = None \<or>
        (\<exists>j. body resp = Some j \<and> candidate_fragments j = None)))"
    by (rule disjI2)
  with generate_with_gemini_result[of "ex_post (Some ex_body_parts_number)" "str ''prompt''"
      "str ''key''", THEN conjunct2, THEN conjunct1]
  have 6: "\<exists>x. generate_with_gemini (ex_post (Some ex_body_parts_number)) (str ''prompt'')
      (str ''key'') = Inl x" by (rule iffD2)
  have "\<exists>resp. ex_post None (GEMINI_URL @ str ''?key='' @ str ''key'')
        (request_payload (str ''prompt'')) = Inr resp \<and>
      (400 \<le> status_code resp \<and> status_code resp < 600 \<or> body resp = None \<or>
       (\<exists>j. body resp = Some j \<and> candidate_fragments j = None))"
    by (intro exI[of _ "\<lparr>status_code = 200, body = None\<rparr>"]) (simp add: ex_post_def)
  then have "(\<exists>x. ex_post None (GEMINI_URL @ str ''?key='' @ str ''key'')
        (request_payload (str ''prompt'')) = Inl x) \<or>
      (\<exists>resp. ex_post None (GEMINI_URL @ str ''?key='' @ str ''key'')
         (request_payload (str ''prompt'')) = Inr resp \<and>
       (400 \<le> status_code resp \<and> status_code resp < 600 \<or> body resp = None \<or>
        (\<exists>j. body resp = Some j \<and> candidate_fragments j = None)))"
    by (rule disjI2)
  with generate_with_gemini_result[of "ex_post None" "str ''prompt''" "str ''key''",
      THEN conjunct2, THEN conjunct1]
  have 7: "\<exists>x. generate_with_gemini (ex_post None) (str ''prompt'') (str ''key'') = Inl x"
    by (rule iffD2)
  from 1 2 3 4 5 6 7 show ?thesis by (intro conjI)
qed

text \<open>
  The claim as stated fails in each of its parts.  The text fragments `` Did X.'' and
  `` Did Y.'' followed by a newline are returned as ``Did X. Did Y.'', which is not their
  concatenation.  A response with status 200 whose only candidate has no \<^verbatim>\<open>content\<close> (a
  blocked answer) raises \<^verbatim>\<open>KeyError\<close>, and one whose \<^verbatim>\<open>parts\<close> is a number raises
  \<^verbatim>\<open>TypeError\<close>, although the transport worked, the status is a success and the list of
  candidates is not empty.  And a response with status 300, which is not a success
  status, raises nothing: its text is returned.
\<close>

theorem generate_with_gemini_counterexample:
  "generate_with_gemini (ex_post (Some ex_body_padded)) (str ''prompt'') (str ''key'') =
     Inr (str ''Did X. Did Y.'') \<and>
   candidate_fragments ex_body_padded = Some [str '' Did X.'', str '' Did Y.\<newline>''] \<and>
   str ''Did X. Did Y.'' \<noteq> concat [str '' Did X.'', str '' Did Y.\<newline>''] \<and>
   generate_with_gemini (ex_post (Some ex_body_blocked)) (str ''prompt'') (str ''key'') =
     Inl (KeyError (str ''content'')) \<and>
   \<not> no_candidates ex_body_blocked \<and>
   generate_with_gemini (ex_post_status 300) (str ''prompt'') (str ''key'') =
     Inr (str ''Did X.'') \<and>
   generate_with_gemini (ex_post (Some ex_body_parts_number)) (str ''prompt'') (str ''key'') =
     Inl TypeError \<and>
   \<not> no_candidates ex_body_parts_number"
proof (intro conjI)
  show "generate_with_gemini (ex_post (Some ex_body_padded)) (str ''prompt'') (str ''key'') =
     Inr (str ''Did X. Did Y.'')"
    by (simp add: generate_with_gemini_def candidate_text_def join_part_texts_def
        raise_for_status_def obj_get_def py_strip_def py_isspace_def ex_post_def
        ex_body_padded_def str_def)
  show "candidate_fragments ex_body_padded = Some [str '' Did X.'', str '' Did Y.\<newline>'']"
    by (simp add: candidate_fragments_def obj_get_def ex_body_padded_def str_def)
  show "str ''Did X. Did Y.'' \<noteq> concat [str '' Did X.'', str '' Did Y.\<newline>'']"
    by (simp add: str_def)
  show "generate_with_gemini (ex_post (Some ex_body_blocked)) (str ''prompt'') (str ''key'') =
     Inl (KeyError (str ''content''))"
    by (simp add: generate_with_gemini_def candidate_text_def raise_for_status_def obj_get_def
        ex_post_def ex_body_blocked_def str_def)
  show "\<not> no_candidates ex_body_blocked"
    by (simp add: no_candidates_def obj_get_def ex_body_blocked_def str_def)
  show "generate_with_gemini (ex_post_status 300) (str ''prompt'') (str ''key'') =
     Inr (str ''Did X.'')"
    by (simp add: generate_with_gemini_def candidate_text_def join_part_texts_def
        raise_for_status_def obj_get_def py_strip_def py_isspace_def ex_post_status_def
        ex_body_ok_def str_def)
  show "generate_with_gemini (ex_post (Some ex_body_parts_number)) (str ''prompt'')
      (str ''key'') = Inl TypeError"
    by (simp add: generate_with_gemini_def candidate_text_def join_part_texts_def
        raise_for_status_def obj_get_def ex_post_def ex_body_parts_number_def str_def)
  show "\<not> no_candidates ex_body_parts_number"
    by (simp add: no_candidates_def obj_get_def ex_body_parts_number_def str_def)
qed

section \<open>Properties of the settings store\<close>

subsection \<open>Dictionaries\<close>

lemma key_norm_JStr [simp]: "key_norm k = JStr s \<longleftrightarrow> k = JStr s"
  by (cases k) auto

lemma key_norm_JStr' [simp]: "JStr s = key_norm k \<longleftrightarrow> k = JStr s"
  by (cases k) auto

lemma getitem_setitem:
  "getitem (setitem d k v) k' = (if key_norm k = key_norm k' then Some v else getitem d k')"
  by (induction d) auto

lemma norm_keys_setitem:
  "set (norm_keys (setitem d k v)) = insert (key_norm k) (set (norm_keys d))"
  by (induction d rule: norm_keys.induct) auto

lemma norm_keys_member: "(k, v) \<in> set d \<Longrightarrow> key_norm k \<in> set (norm_keys d)"
  by (induction d rule: norm_keys.induct) auto

lemma is_dict_setitem: "is_dict d \<Longrightarrow> is_dict (setitem d k v)"
  unfolding is_dict_def
proof (induction d rule: norm_keys.induct)
  case 1
  then show ?case by simp
next
  case (2 k' v' d)
  show ?case
  proof (cases "key_norm k' = key_norm k")
    case True
    with 2 show ?thesis by simp
  next
    case False
    have "key_norm k' \<notin> set (norm_keys (setitem d k v))"
      using 2 False unfolding norm_keys_setitem by auto
    with 2 False show ?thesis by simp
  qed
qed

lemma is_dict_update_items: "is_dict d \<Longrightarrow> is_dict (update_items d kvs)"
  by (induction d kvs rule: update_items.induct) (auto simp: is_dict_setitem)

lemma file_value_Cons:
  "file_value ((s, v) # kvs) k =
     (case file_value kvs k of Some x \<Rightarrow> Some x
      | None \<Rightarrow> if k = JStr s then Some v else None)"
  by (cases k) (auto simp: file_value_def map_add_def split: option.splits)

lemma getitem_update_items:
  "getitem (update_items d kvs) k =
     (case file_value kvs k of Some v \<Rightarrow> Some v | None \<Rightarrow> getitem d k)"
proof (induction d kvs rule: update_items.induct)
  case (1 d)
  then show ?case by (simp add: file_value_def split: json.splits)
next
  case (2 d s v kvs)
  then show ?case
    by (auto simp: file_value_Cons getitem_setitem split: option.splits)
qed

lemma getitem_member: "is_dict d \<Longrightarrow> (k, v) \<in> set d \<Longrightarrow> getitem d k = Some v"
  unfolding is_dict_def
proof (induction d rule: norm_keys.induct)
  case 1
  then show ?case by simp
next
  case (2 k' v' d)
  show ?case
  proof (cases "(k, v) = (k', v')")
    case True
    then show ?thesis by simp
  next
    case False
    with "2.prems" have mem: "(k, v) \<in> set d" by auto
    from norm_keys_member[OF mem] "2.prems" have "key_norm k' \<noteq> key_norm k" by auto
    moreover from "2.prems" have "distinct (norm_keys d)" by simp
    ultimately show ?thesis using "2.IH" mem by simp
  qed
qed

lemma dict_items_in_ext:
  assumes "is_dict a" and "\<And>k. getitem a k = getitem b k"
  shows "dict_items_in a b"
  unfolding dict_items_in_def list_all_iff
proof
  fix kv assume "kv \<in> set a"
  then have "(fst kv, snd kv) \<in> set a" by simp
  from getitem_member[OF assms(1) this] assms(2)
  show "getitem b (fst kv) = Some (snd kv)" by simp
qed

lemma dict_eq_ext:
  assumes "is_dict a" and "is_dict b" and "\<And>k. getitem a k = getitem b k"
  shows "dict_eq a b"
  unfolding dict_eq_def
  using dict_items_in_ext[OF assms(1), of b] dict_items_in_ext[OF assms(2), of a] assms(3)
  by simp

lemma map_of_obj_set: "map_of (obj_set acc k v) = (map_of acc)(k \<mapsto> v)"
  by (induction acc) (auto simp: fun_eq_iff)

lemma keys_obj_set: "fst ` set (obj_set acc k v) = insert k (fst ` set acc)"
proof -
  have "dom (map_of (obj_set acc k v)) = insert k (dom (map_of acc))"
    by (simp add: map_of_obj_set)
  then show ?thesis by (simp add: dom_map_of_conv_image_fst)
qed

lemma distinct_obj_set: "distinct (map fst acc) \<Longrightarrow> distinct (map fst (obj_set acc k v))"
proof (induction acc)
  case Nil
  then show ?case by simp
next
  case (Cons a acc)
  obtain k' v' where a: "a = (k', v')" by (cases a)
  show ?case
  proof (cases "k' = k")
    case True
    with Cons.prems show ?thesis by (simp add: a)
  next
    case False
    have "k' \<notin> fst ` set (obj_set acc k v)"
      using Cons.prems False unfolding keys_obj_set by (auto simp: a)
    with Cons False show ?thesis by (simp add: a)
  qed
qed

lemma distinct_obj_of_items:
  "distinct (map fst acc) \<Longrightarrow> distinct (map fst (obj_of_items acc kvs))"
  by (induction acc kvs rule: obj_of_items.induct) (auto simp: distinct_obj_set)

lemma map_of_obj_of_items:
  "map_of (obj_of_items acc kvs) x =
     (case map_of (rev kvs) x of Some y \<Rightarrow> Some y | None \<Rightarrow> map_of acc x)"
proof (induction acc kvs rule: obj_of_items.induct)
  case (1 acc)
  then show ?case by simp
next
  case (2 acc k v kvs)
  then show ?case
    by (cases "map_of (rev kvs) x") (simp_all add: map_of_obj_set map_add_def)
qed

lemma map_of_rev_distinct: "distinct (map fst kvs) \<Longrightarrow> map_of (rev kvs) = map_of kvs"
proof (induction kvs)
  case Nil
  then show ?case by simp
next
  case (Cons a kvs)
  obtain k v where a: "a = (k, v)" by (cases a)
  from Cons.prems have "k \<notin> fst ` set kvs" by (simp add: a)
  then have none: "map_of kvs k = None" by (simp add: map_of_eq_None_iff)
  from Cons have ih: "map_of (rev kvs) = map_of kvs" by simp
  show ?case
    unfolding a using none by (auto simp: ih fun_eq_iff map_add_def split: option.splits)
qed

subsection \<open>Saving and loading\<close>

lemma getitem_str_keys:
  "list_all (\<lambda>kv. is_str (fst kv)) d \<Longrightarrow>
     getitem d k =
       (case k of
          JStr s \<Rightarrow> map_of (map (\<lambda>kv. (key_string (fst kv), snd kv)) d) s
        | _ \<Rightarrow> None)"
proof (induction d rule: norm_keys.induct)
  case 1
  then show ?case by (simp split: json.splits)
next
  case (2 k' v' d)
  from "2.prems" obtain s' where k': "k' = JStr s'" by (cases k') auto
  from 2 show ?case by (cases k) (auto simp: k')
qed

lemma norm_keys_str_keys:
  "list_all (\<lambda>kv. is_str (fst kv)) d \<Longrightarrow>
     norm_keys d = map JStr (map fst (map (\<lambda>kv. (key_string (fst kv), snd kv)) d))"
proof (induction d rule: norm_keys.induct)
  case 1
  then show ?case by simp
next
  case (2 k' v' d)
  from "2.prems" obtain s' where k': "k' = JStr s'" by (cases k') auto
  from 2 show ?case by (simp add: k')
qed

lemma default_config_keys:
  "getitem (default_config cwd) k = Some v \<Longrightarrow> \<exists>s\<in>set default_keys. k = JStr s"
  by (auto simp: default_config_def default_keys_def split: if_splits)

lemma is_dict_default_config: "is_dict (default_config cwd)"
  by (simp add: is_dict_def default_config_def str_def)

lemma load_saved:
  assumes "is_preferences cfg"
  shows "load_config cwd (Holds (dumped cfg)) =
           (update_items (default_config cwd)
              (obj_of_items [] (map (\<lambda>kv. (key_string (fst kv), snd kv)) cfg)), False)"
    and "is_dict (update_items (default_config cwd)
              (obj_of_items [] (map (\<lambda>kv. (key_string (fst kv), snd kv)) cfg)))"
    and "getitem (update_items (default_config cwd)
              (obj_of_items [] (map (\<lambda>kv. (key_string (fst kv), snd kv)) cfg))) k = getitem cfg k"
proof -
  let ?items = "map (\<lambda>kv. (key_string (fst kv), snd kv)) cfg"
  let ?obj = "obj_of_items [] ?items"
  from assms have d: "is_dict cfg" and sk: "list_all (\<lambda>kv. is_str (fst kv)) cfg"
    and hk: "list_all (has_key cfg) default_keys"
    by (simp_all add: is_preferences_def)
  show "load_config cwd (Holds (dumped cfg)) = (update_items (default_config cwd) ?obj, False)"
    by (simp add: load_config_def dumped_def)
  show "is_dict (update_items (default_config cwd) ?obj)"
    by (rule is_dict_update_items[OF is_dict_default_config])
  have "distinct (map JStr (map fst ?items))"
    using d norm_keys_str_keys[OF sk] by (simp add: is_dict_def)
  then have di: "distinct (map fst ?items)"
    by (metis distinct_map)
  have dobj: "distinct (map fst ?obj)"
    by (rule distinct_obj_of_items) simp
  have fv: "file_value ?obj k = getitem cfg k"
  proof (cases k)
    case (JStr s)
    have "file_value ?obj k = map_of ?obj s"
      using map_of_rev_distinct[OF dobj] by (simp add: file_value_def JStr)
    also have "\<dots> = map_of (rev ?items) s"
      by (simp add: map_of_obj_of_items split: option.splits)
    also have "\<dots> = map_of ?items s"
      using map_of_rev_distinct[OF di] by simp
    also have "\<dots> = getitem cfg k"
      using getitem_str_keys[OF sk, of k] by (simp add: JStr)
    finally show ?thesis .
  qed (use getitem_str_keys[OF sk, of k] in \<open>simp_all add: file_value_def\<close>)
  show "getitem (update_items (default_config cwd) ?obj) k = getitem cfg k"
  proof (cases "getitem cfg k")
    case (Some v)
    then show ?thesis by (simp add: getitem_update_items fv)
  next
    case None
    have "getitem (default_config cwd) k = None"
    proof (rule ccontr)
      assume "getitem (default_config cwd) k \<noteq> None"
      then obtain v where "getitem (default_config cwd) k = Some v" by auto
      from default_config_keys[OF this] obtain s where s: "s \<in> set default_keys" "k = JStr s"
        by blast
      with hk have "has_key cfg s" by (simp add: list_all_iff)
      with None s show False by (simp add: has_key_def)
    qed
    with None show ?thesis by (simp add: getitem_update_items fv)
  qed
qed

text \<open>
  Claim C3.  A preferences record that is saved (the write succeeds) and loaded again
  comes back without a warning and equal to the record saved; and a settings file whose
  text does not parse gives the default record with the warning.
\<close>

theorem settings_round_trip:
  assumes "is_preferences cfg"
  shows "(\<exists>file' cfg'. save_config cfg None file = (file', True) \<and>
            load_config cwd file' = (cfg', False) \<and> dict_eq cfg' cfg) \<and>
         load_config cwd Garbled = (default_config cwd, True)"
proof -
  let ?cfg' = "update_items (default_config cwd)
      (obj_of_items [] (map (\<lambda>kv. (key_string (fst kv), snd kv)) cfg))"
  from assms have d: "is_dict cfg" by (simp add: is_preferences_def)
  have "dict_eq ?cfg' cfg"
    using load_saved(2)[OF assms] d load_saved(3)[OF assms] by (rule dict_eq_ext)
  moreover have "save_config cfg None file = (Holds (dumped cfg), True)"
    by (simp add: save_config_def)
  moreover note load_saved(1)[OF assms, of cwd]
  moreover have "load_config cwd Garbled = (default_config cwd, True)"
    by (simp add: load_config_def)
  ultimately show ?thesis by blast
qed

lemma ex_cfg_preferences: "is_preferences ex_cfg"
  by (simp add: is_preferences_def is_dict_def ex_cfg_def default_keys_def has_key_def str_def)

theorem settings_round_trip_witness:
  "is_preferences ex_cfg \<and>
   save_config ex_cfg None Missing = (Holds (dumped ex_cfg), True) \<and>
   load_config (str ''/home'') (Holds (dumped ex_cfg)) = (ex_cfg, False) \<and>
   dict_eq ex_cfg ex_cfg \<and>
   load_config (str ''/home'') Garbled = (default_config (str ''/home''), True)"
proof -
  have s: "save_config ex_cfg None Missing = (Holds (dumped ex_cfg), True)"
    by (simp add: save_config_def)
  have l: "load_config (str ''/home'') (Holds (dumped ex_cfg)) = (ex_cfg, False)"
    by (simp add: load_config_def dumped_def default_config_def ex_cfg_def str_def)
  from settings_round_trip[OF ex_cfg_preferences, of Missing "str ''/home''"] s l
  show ?thesis using ex_cfg_preferences by auto
qed

lemma has_key_setitem: "has_key d s \<Longrightarrow> has_key (setitem d k v) s"
  by (simp add: has_key_def getitem_setitem split: option.splits)

lemma has_key_update_items: "has_key d s \<Longrightarrow> has_key (update_items d kvs) s"
  by (induction d kvs rule: update_items.induct) (auto simp: has_key_setitem)

lemma has_key_update_pairs: "has_key d s \<Longrightarrow> has_key (fst (update_pairs d xs)) s"
proof (induction xs arbitrary: d)
  case Nil
  then show ?case by simp
next
  case (Cons x xs)
  show ?case
  proof (cases "pair_of x")
    case (Inl e)
    with Cons.prems show ?thesis by simp
  next
    case (Inr kv)
    obtain k v where kv: "kv = (k, v)" by (cases kv)
    show ?thesis
    proof (cases "hashable k")
      case True
      with Inr kv Cons.IH[OF has_key_setitem[OF Cons.prems, of k v]] show ?thesis by simp
    next
      case False
      with Inr kv Cons.prems show ?thesis by simp
    qed
  qed
qed

lemma has_key_dict_update: "has_key d s \<Longrightarrow> has_key (fst (dict_update d j)) s"
  by (cases j) (simp_all add: has_key_update_items has_key_update_pairs)

lemma has_key_load_config:
  assumes "has_key (default_config cwd) s"
  shows "has_key (fst (load_config cwd file)) s"
proof (cases "file")
  case (Holds j)
  obtain d e where u: "dict_update (default_config cwd) j = (d, e)"
    by (cases "dict_update (default_config cwd) j")
  from has_key_dict_update[OF assms, of j] u have "has_key d s" by simp
  with Holds u show ?thesis by (cases e) (simp_all add: load_config_def)
qed (use assms in \<open>simp_all add: load_config_def\<close>)

lemma default_config_has_keys: "list_all (has_key (default_config cwd)) default_keys"
  by (simp add: default_config_def default_keys_def has_key_def str_def)

text \<open>
  Claim C10.  Whatever the settings file is, the dictionary loaded has the five default
  keys; without a file it is the default record.  Loaded from a file that holds an
  object, no warning is shown, and every key has the value the file gives it, or else
  its default value (none, if it has no default): the file's values override the
  defaults key by key and its other keys are kept.
\<close>

theorem load_config_defaults:
  "list_all (has_key (fst (load_config cwd file))) default_keys \<and>
   load_config cwd Missing = (default_config cwd, False) \<and>
   snd (load_config cwd (Holds (JObj kvs))) = False \<and>
   getitem (fst (load_config cwd (Holds (JObj kvs)))) k =
     (case file_value kvs k of Some v \<Rightarrow> Some v | None \<Rightarrow> getitem (default_config cwd) k)"
proof -
  have "list_all (has_key (fst (load_config cwd file))) default_keys"
    using default_config_has_keys[of cwd]
    by (auto simp: list_all_iff intro: has_key_load_config)
  moreover have "load_config cwd (Holds (JObj kvs)) =
      (update_items (default_config cwd) kvs, False)"
    by (simp add: load_config_def)
  ultimately show ?thesis
    by (simp add: getitem_update_items) (simp add: load_config_def)
qed

theorem load_config_defaults_witness:
  "list_all (has_key (fst (load_config (str ''/home'') ex_partial_file))) default_keys \<and>
   getitem (fst (load_config (str ''/home'') ex_partial_file)) (JStr (str ''report_style'')) =
     Some (JStr (str ''medium'')) \<and>
   getitem (fst (load_config (str ''/home'') ex_partial_file)) (JStr (str ''theme'')) =
     Some (JStr (str ''dark'')) \<and>
   getitem (fst (load_config (str ''/home'') ex_partial_file)) (JStr (str ''api_key'')) =
     Some (JStr [])"
  using load_config_defaults[of "str ''/home''" ex_partial_file
      "[(str ''report_style'', JStr (str ''medium'')), (str ''theme'', JStr (str ''dark''))]"
      "JStr (str ''report_style'')"]
    load_config_defaults[of "str ''/home''" ex_partial_file
      "[(str ''report_style'', JStr (str ''medium'')), (str ''theme'', JStr (str ''dark''))]"
      "JStr (str ''theme'')"]
    load_config_defaults[of "str ''/home''" ex_partial_file
      "[(str ''report_style'', JStr (str ''medium'')), (str ''theme'', JStr (str ''dark''))]"
      "JStr (str ''api_key'')"]
  by (simp add: ex_partial_file_def file_value_def default_config_def str_def)

text \<open>
  The record must have the five settings: a dictionary without them comes back with the
  defaults added.  And a write that fails leaves whatever the fault leaves; after a
  fault that garbles the file the settings are the defaults again.
\<close>

lemma round_trip_adds_defaults:
  "load_config cwd (fst (save_config [] None file)) = (default_config cwd, False)"
  by (simp add: save_config_def load_config_def dumped_def)

lemma failed_save_then_load:
  "save_config cfg (Some Garbled) file = (Garbled, False) \<and>
   load_config cwd (fst (save_config cfg (Some Garbled) file)) = (default_config cwd, True)"
  by (simp add: save_config_def load_config_def)

end
